theory Spec2Isabelle
  imports Complex_Main
begin

section \<open>Data model (accOrientation.h)\<close>

text \<open>
  The C structs \<^verbatim>\<open>Vector\<close>, \<^verbatim>\<open>Orientation\<close> and \<^verbatim>\<open>OrientationMagnitude\<close> become records.
  The C fields are \<^verbatim>\<open>float\<close> and the intermediate values \<^verbatim>\<open>double\<close>; both are modelled
  by \<^typ>\<open>real\<close>, so rounding is idealised away (\<^verbatim>\<open>sqrtf\<close>, \<^verbatim>\<open>cos\<close>, \<^verbatim>\<open>sin\<close> are the
  real functions, the casts \<^verbatim>\<open>(float)\<close> are the identity). What is kept exactly is
  everything that is not rounding: the conversion of the magnitude to \<^verbatim>\<open>int\<close> in
  \<^verbatim>\<open>unitVector\<close>, the literal \<^verbatim>\<open>3.1415\<close> of the macro \<^verbatim>\<open>PI\<close>, and every division. The
  functions on which a claim depends at the threshold of a comparison are given a second
  time, with every rounding written out, in the section on binary floating point.
\<close>

record Vector =
  X :: real
  Y :: real
  Z :: real

record Orientation =
  vUp :: Vector
  vFront :: Vector
  vRight :: Vector

record OrientationMagnitude =
  UP :: real
  FRONT :: real
  RIGHT :: real

text \<open>
  A division whose divisor is zero, and a conversion to \<^verbatim>\<open>int\<close> of a value that a 32-bit
  \<^verbatim>\<open>int\<close> cannot hold, have no defined real result (C11 6.5.5p5 and 6.3.1.4; with IEEE
  arithmetic the quotient is an infinity or a NaN, which then spreads through the rest of
  the computation). Each is an error value of the model, and a function that meets one
  returns it in place of a result.
\<close>

datatype error = DivisionByZero | IntConversionOutOfRange

section \<open>Vector algebra (accOrientation.c)\<close>

definition PI :: real where
  "PI = 3.1415"

definition vectorMagnitude :: "Vector \<Rightarrow> real" where
  "vectorMagnitude v = sqrt (X v * X v + Y v * Y v + Z v * Z v)"

text \<open>
  \<^verbatim>\<open>int vm = vectorMagnitude(inputV);\<close> converts the non-negative magnitude to \<^verbatim>\<open>int\<close>,
  which discards the fractional part: \<open>vm\<close> is the floor of the magnitude. The three
  divisions then divide by that integer.
\<close>

definition unitVector :: "Vector \<Rightarrow> error + Vector" where
  "unitVector inputV =
     (let m = vectorMagnitude inputV in
      if 2147483648 \<le> m then Inl IntConversionOutOfRange
      else
        let vm = \<lfloor>m\<rfloor> in
        if vm = 0 then Inl DivisionByZero
        else Inr \<lparr>X = X inputV / real_of_int vm,
                  Y = Y inputV / real_of_int vm,
                  Z = Z inputV / real_of_int vm\<rparr>)"

definition dotProduct :: "Vector \<Rightarrow> Vector \<Rightarrow> real" where
  "dotProduct v1 v2 = X v1 * X v2 + Y v1 * Y v2 + Z v1 * Z v2"

definition subtractVectors :: "Vector \<Rightarrow> Vector \<Rightarrow> Vector" where
  "subtractVectors v1 v2 = \<lparr>X = X v1 - X v2, Y = Y v1 - Y v2, Z = Z v1 - Z v2\<rparr>"

definition crossProduct :: "Vector \<Rightarrow> Vector \<Rightarrow> Vector" where
  "crossProduct v1 v2 =
     \<lparr>X = Y v1 * Z v2 - Z v1 * Y v2,
      Y = Z v1 * X v2 - X v1 * Z v2,
      Z = X v1 * Y v2 - Y v1 * X v2\<rparr>"

definition isVectorsInOppositeDirection :: "Vector \<Rightarrow> Vector \<Rightarrow> bool" where
  "isVectorsInOppositeDirection v1 v2 \<longleftrightarrow> dotProduct v1 v2 < 0"

section \<open>Rotation operators\<close>

definition rotateVectorThroughAnotherVector :: "Vector \<Rightarrow> Vector \<Rightarrow> int \<Rightarrow> error + Vector" where
  "rotateVectorThroughAnotherVector v1 v2 angle =
     (case unitVector v1 of
        Inl e \<Rightarrow> Inl e
      | Inr e1 \<Rightarrow>
          let c1 = dotProduct v2 e1;
              u2 = \<lparr>X = X v2 - c1 * X e1, Y = Y v2 - c1 * Y e1, Z = Z v2 - c1 * Z e1\<rparr>
          in case unitVector u2 of
               Inl e \<Rightarrow> Inl e
             | Inr e2 \<Rightarrow>
                 let v1_m = vectorMagnitude v1;
                     radians = real_of_int angle * (PI / 180);
                     cosRad = cos radians;
                     sinRad = sin radians
                 in Inr \<lparr>X = (v1_m * cosRad) * X e1 + (v1_m * sinRad) * X e2,
                          Y = (v1_m * cosRad) * Y e1 + (v1_m * sinRad) * Y e2,
                          Z = (v1_m * cosRad) * Z e1 + (v1_m * sinRad) * Z e2\<rparr>)"

definition vectorComponentParallelToAnotherVector :: "Vector \<Rightarrow> Vector \<Rightarrow> error + Vector" where
  "vectorComponentParallelToAnotherVector v1 v2 =
     (if dotProduct v2 v2 = 0 then Inl DivisionByZero
      else
        let aux = dotProduct v1 v2 / dotProduct v2 v2
        in Inr \<lparr>X = aux * X v2, Y = aux * Y v2, Z = aux * Z v2\<rparr>)"

definition rotateVectorAroundAnotherVector :: "Vector \<Rightarrow> Vector \<Rightarrow> int \<Rightarrow> error + Vector" where
  "rotateVectorAroundAnotherVector v1 v2 angle =
     (let radians = real_of_int angle * (PI / 180) in
      case vectorComponentParallelToAnotherVector v1 v2 of
        Inl e \<Rightarrow> Inl e
      | Inr paralelToV2 \<Rightarrow>
          let perpendicularToV2 = subtractVectors v1 paralelToV2;
              w = crossProduct v2 perpendicularToV2;
              perpendicularToV2_mag = vectorMagnitude perpendicularToV2;
              w_mag = vectorMagnitude w;
              cosRad = cos radians;
              sinRad = sin radians
          in if w_mag = 0 then Inl DivisionByZero
             else Inr
               \<lparr>X = X paralelToV2 + X perpendicularToV2 * cosRad
                      + perpendicularToV2_mag * (X w / w_mag) * sinRad,
                Y = Y paralelToV2 + Y perpendicularToV2 * cosRad
                      + perpendicularToV2_mag * (Y w / w_mag) * sinRad,
                Z = Z paralelToV2 + Z perpendicularToV2 * cosRad
                      + perpendicularToV2_mag * (Z w / w_mag) * sinRad\<rparr>)"

section \<open>Orientation basis and decomposition\<close>

text \<open>
  The parameters \<^verbatim>\<open>vUp\<close> and \<^verbatim>\<open>vUpFront\<close> of \<^verbatim>\<open>findOrientation\<close> are written \<open>up\<close> and
  \<open>upFront\<close>, since \<open>vUp\<close> is the field of the record. The out-parameters of the C
  functions are the results here, and the \<^verbatim>\<open>memcpy\<close> that ends \<^verbatim>\<open>findOrientation\<close> sets the
  field \<open>vUp\<close> of the result to the input.
\<close>

definition findOrientation :: "Vector \<Rightarrow> Vector \<Rightarrow> error + Orientation" where
  "findOrientation up upFront =
     (case rotateVectorThroughAnotherVector up upFront 90 of
        Inl e \<Rightarrow> Inl e
      | Inr front \<Rightarrow>
          (case rotateVectorAroundAnotherVector up front 90 of
             Inl e \<Rightarrow> Inl e
           | Inr right \<Rightarrow> Inr \<lparr>vUp = up, vFront = front, vRight = right\<rparr>))"

definition findVectorComponentsInTheOrientation :: "Vector \<Rightarrow> Orientation \<Rightarrow> error + Orientation" where
  "findVectorComponentsInTheOrientation v orientation =
     (case vectorComponentParallelToAnotherVector v (vUp orientation) of
        Inl e \<Rightarrow> Inl e
      | Inr cUp \<Rightarrow>
          (case vectorComponentParallelToAnotherVector v (vFront orientation) of
             Inl e \<Rightarrow> Inl e
           | Inr cFront \<Rightarrow>
               (case vectorComponentParallelToAnotherVector v (vRight orientation) of
                  Inl e \<Rightarrow> Inl e
                | Inr cRight \<Rightarrow> Inr \<lparr>vUp = cUp, vFront = cFront, vRight = cRight\<rparr>)))"

definition findVectorsMagnitudeInTheOrientation :: "Vector \<Rightarrow> Orientation \<Rightarrow> error + OrientationMagnitude" where
  "findVectorsMagnitudeInTheOrientation v orientation =
     (case findVectorComponentsInTheOrientation v orientation of
        Inl e \<Rightarrow> Inl e
      | Inr vComponents \<Rightarrow>
          let g0 = \<lparr>UP = vectorMagnitude (vUp vComponents),
                    FRONT = vectorMagnitude (vFront vComponents),
                    RIGHT = vectorMagnitude (vRight vComponents)\<rparr>;
              g1 = (if isVectorsInOppositeDirection (vUp orientation) (vUp vComponents)
                    then g0\<lparr>UP := - UP g0\<rparr> else g0);
              g2 = (if isVectorsInOppositeDirection (vFront orientation) (vFront vComponents)
                    then g1\<lparr>FRONT := - FRONT g1\<rparr> else g1);
              g3 = (if isVectorsInOppositeDirection (vRight orientation) (vRight vComponents)
                    then g2\<lparr>RIGHT := - RIGHT g2\<rparr> else g2)
          in Inr g3)"

section \<open>What a call of findOrientation leaves in its out-parameter\<close>

text \<open>
  The C function has no error path: whatever the two rotations produce, it ends with the
  \<^verbatim>\<open>memcpy\<close> of the input into the field \<^verbatim>\<open>vUp\<close>. The function \<open>findOrientation\<close> above gives
  an orientation only when both rotations are defined. The record below has what the call
  leaves in \<^verbatim>\<open>*orientation\<close> in every case: the field \<^verbatim>\<open>vUp\<close>, and for each of the two other
  fields either its vector or the error that makes its content undefined (a NaN in the
  C program). The second rotation takes the field \<^verbatim>\<open>vFront\<close> as its axis, so an undefined
  \<^verbatim>\<open>vFront\<close> makes \<^verbatim>\<open>vRight\<close> undefined too.
\<close>

record Orientation_written =
  written_vUp :: Vector
  written_vFront :: "error + Vector"
  written_vRight :: "error + Vector"

definition findOrientation_written :: "Vector \<Rightarrow> Vector \<Rightarrow> Orientation_written" where
  "findOrientation_written up upFront =
     (let front = rotateVectorThroughAnotherVector up upFront 90;
          right = (case front of
                     Inl e \<Rightarrow> Inl e
                   | Inr f \<Rightarrow> rotateVectorAroundAnotherVector up f 90)
      in \<lparr>written_vUp = up, written_vFront = front, written_vRight = right\<rparr>)"

section \<open>The operations in binary floating point\<close>

text \<open>
  The definitions above compute in exact real arithmetic. Where a claim depends on a value
  next to the threshold of a comparison (a computed magnitude next to 1, a computed
  difference next to 0), the rounding of the C arithmetic decides, and the functions
  concerned are given a second time with every rounding written out. The values are still
  reals; \<open>float_round\<close> and \<open>double_round\<close> round a real to the nearest number of the
  IEEE 754 formats binary32 (24 significant bits) and binary64 (53 bits), ties to the even
  significand, with gradual underflow.

  What is taken for granted, as on the usual targets: \<^verbatim>\<open>float\<close> is binary32 and \<^verbatim>\<open>double\<close> is
  binary64; an operation on two \<^verbatim>\<open>float\<close> operands is rounded to \<^verbatim>\<open>float\<close>, one with a
  \<^verbatim>\<open>double\<close> operand to \<^verbatim>\<open>double\<close>, each operation on its own (no fused multiply-add);
  \<^verbatim>\<open>sqrtf\<close> is correctly rounded; a store into a \<^verbatim>\<open>float\<close> field and the conversion of the
  \<^verbatim>\<open>int\<close> divisor to \<^verbatim>\<open>float\<close> round to nearest; the literal \<^verbatim>\<open>3.1415\<close> is the nearest
  \<^verbatim>\<open>double\<close>. The exponent has no upper bound in the model: a value beyond the largest
  finite number, which overflows to an infinity in C, is outside of it. The functions
  \<^verbatim>\<open>cos\<close> and \<^verbatim>\<open>sin\<close> of the C library, whose accuracy the language does not fix, are the
  parameters \<open>libm_cos\<close> and \<open>libm_sin\<close>. The fields of the argument vectors are taken as
  they are.
\<close>

definition round_half_even :: "real \<Rightarrow> int" where
  "round_half_even y =
     (let f = \<lfloor>y\<rfloor> in
      if y - real_of_int f < 1 / 2 then f
      else if 1 / 2 < y - real_of_int f then f + 1
      else if even f then f else f + 1)"

definition binary_round :: "nat \<Rightarrow> int \<Rightarrow> real \<Rightarrow> real" where
  "binary_round p emin x =
     (if x = 0 then 0
      else
        let e = max \<lfloor>log 2 \<bar>x\<bar>\<rfloor> emin;
            u = 2 powr real_of_int (e - int p + 1)
        in real_of_int (round_half_even (x / u)) * u)"

definition float_round :: "real \<Rightarrow> real" where
  "float_round = binary_round 24 (- 126)"

definition double_round :: "real \<Rightarrow> real" where
  "double_round = binary_round 53 (- 1022)"

text \<open>
  \<^verbatim>\<open>sqrtf(v->X*v->X + v->Y*v->Y + v->Z*v->Z)\<close>: three products and two sums in \<^verbatim>\<open>float\<close>, then
  the square root in \<^verbatim>\<open>float\<close>; the \<^verbatim>\<open>double\<close> returned holds that \<^verbatim>\<open>float\<close>. In
  \<^verbatim>\<open>unitVector\<close> the \<^verbatim>\<open>int\<close> divisor is converted to \<^verbatim>\<open>float\<close> for the division.
\<close>

definition vectorMagnitude_fp :: "Vector \<Rightarrow> real" where
  "vectorMagnitude_fp v =
     float_round (sqrt (float_round (float_round (float_round (X v * X v) + float_round (Y v * Y v))
                                      + float_round (Z v * Z v))))"

definition unitVector_fp :: "Vector \<Rightarrow> error + Vector" where
  "unitVector_fp inputV =
     (let m = vectorMagnitude_fp inputV in
      if 2147483648 \<le> m then Inl IntConversionOutOfRange
      else
        let vm = \<lfloor>m\<rfloor> in
        if vm = 0 then Inl DivisionByZero
        else Inr \<lparr>X = float_round (X inputV / float_round (real_of_int vm)),
                  Y = float_round (Y inputV / float_round (real_of_int vm)),
                  Z = float_round (Z inputV / float_round (real_of_int vm))\<rparr>)"

definition dotProduct_fp :: "Vector \<Rightarrow> Vector \<Rightarrow> real" where
  "dotProduct_fp v1 v2 =
     float_round (float_round (float_round (X v1 * X v2) + float_round (Y v1 * Y v2))
                  + float_round (Z v1 * Z v2))"

definition subtractVectors_fp :: "Vector \<Rightarrow> Vector \<Rightarrow> Vector" where
  "subtractVectors_fp v1 v2 =
     \<lparr>X = float_round (X v1 - X v2), Y = float_round (Y v1 - Y v2), Z = float_round (Z v1 - Z v2)\<rparr>"

definition crossProduct_fp :: "Vector \<Rightarrow> Vector \<Rightarrow> Vector" where
  "crossProduct_fp v1 v2 =
     \<lparr>X = float_round (float_round (Y v1 * Z v2) - float_round (Z v1 * Y v2)),
      Y = float_round (float_round (Z v1 * X v2) - float_round (X v1 * Z v2)),
      Z = float_round (float_round (X v1 * Y v2) - float_round (Y v1 * X v2))\<rparr>"

text \<open>
  In \<^verbatim>\<open>vectorComponentParallelToAnotherVector\<close> the quotient \<^verbatim>\<open>aux\<close> and the three products
  are \<^verbatim>\<open>double\<close> operations, and each product is then stored into a \<^verbatim>\<open>float\<close> field. In
  \<^verbatim>\<open>rotateVectorAroundAnotherVector\<close> the expression
  \<^verbatim>\<open>p + q * cosRad + m * (w / w_mag) * sinRad\<close> is evaluated in \<^verbatim>\<open>double\<close> as
  \<^verbatim>\<open>(p + (q * cosRad)) + ((m * (w / w_mag)) * sinRad)\<close> and stored into a \<^verbatim>\<open>float\<close> field.
\<close>

definition vectorComponentParallelToAnotherVector_fp :: "Vector \<Rightarrow> Vector \<Rightarrow> error + Vector" where
  "vectorComponentParallelToAnotherVector_fp v1 v2 =
     (if dotProduct_fp v2 v2 = 0 then Inl DivisionByZero
      else
        let aux = double_round (dotProduct_fp v1 v2 / dotProduct_fp v2 v2)
        in Inr \<lparr>X = float_round (double_round (aux * X v2)),
                  Y = float_round (double_round (aux * Y v2)),
                  Z = float_round (double_round (aux * Z v2))\<rparr>)"

definition rotateVectorAroundAnotherVector_fp ::
  "(real \<Rightarrow> real) \<Rightarrow> (real \<Rightarrow> real) \<Rightarrow> Vector \<Rightarrow> Vector \<Rightarrow> int \<Rightarrow> error + Vector" where
  "rotateVectorAroundAnotherVector_fp libm_cos libm_sin v1 v2 angle =
     (let radians = double_round (real_of_int angle * double_round (double_round PI / 180)) in
      case vectorComponentParallelToAnotherVector_fp v1 v2 of
        Inl e \<Rightarrow> Inl e
      | Inr paralelToV2 \<Rightarrow>
          let perpendicularToV2 = subtractVectors_fp v1 paralelToV2;
              w = crossProduct_fp v2 perpendicularToV2;
              perpendicularToV2_mag = vectorMagnitude_fp perpendicularToV2;
              w_mag = vectorMagnitude_fp w;
              cosRad = libm_cos radians;
              sinRad = libm_sin radians
          in if w_mag = 0 then Inl DivisionByZero
             else Inr
               \<lparr>X = float_round (double_round
                      (double_round (X paralelToV2 + double_round (X perpendicularToV2 * cosRad))
                       + double_round (double_round (perpendicularToV2_mag * double_round (X w / w_mag)) * sinRad))),
                Y = float_round (double_round
                      (double_round (Y paralelToV2 + double_round (Y perpendicularToV2 * cosRad))
                       + double_round (double_round (perpendicularToV2_mag * double_round (Y w / w_mag)) * sinRad))),
                Z = float_round (double_round
                      (double_round (Z paralelToV2 + double_round (Z perpendicularToV2 * cosRad))
                       + double_round (double_round (perpendicularToV2_mag * double_round (Z w / w_mag)) * sinRad)))\<rparr>)"

section \<open>Basic facts\<close>

lemma vectorMagnitude_nonneg: "0 \<le> vectorMagnitude v"
  by (simp add: vectorMagnitude_def)

lemma vectorMagnitude_dotProduct: "vectorMagnitude v = sqrt (dotProduct v v)"
  by (simp add: vectorMagnitude_def dotProduct_def)

lemma dotProduct_self_nonneg: "0 \<le> dotProduct v v"
  by (simp add: dotProduct_def)

lemma dotProduct_self_zero_iff:
  "dotProduct v v = 0 \<longleftrightarrow> v = \<lparr>X = 0, Y = 0, Z = 0\<rparr>"
proof (cases v)
  case (fields x y z)
  have "x * x + y * y + z * z = 0 \<longleftrightarrow> x = 0 \<and> y = 0 \<and> z = 0"
    using sum_power2_eq_zero_iff [of x y] sum_power2_eq_zero_iff [of "sqrt (x\<^sup>2 + y\<^sup>2)" z]
    by (auto simp add: power2_eq_square add_nonneg_eq_0_iff)
  then show ?thesis
    using fields by (simp add: dotProduct_def)
qed

lemma vectorMagnitude_zero_iff: "vectorMagnitude v = 0 \<longleftrightarrow> v = \<lparr>X = 0, Y = 0, Z = 0\<rparr>"
  by (simp add: vectorMagnitude_dotProduct dotProduct_self_zero_iff)

lemma vectorMagnitude_zero_vector: "vectorMagnitude \<lparr>X = 0, Y = 0, Z = 0\<rparr> = 0"
  by (simp add: vectorMagnitude_def)

lemma not_opposite_zero_vector: "\<not> isVectorsInOppositeDirection b \<lparr>X = 0, Y = 0, Z = 0\<rparr>"
  by (simp add: isVectorsInOppositeDirection_def dotProduct_def)

lemma sqrt_nine_quarters: "sqrt (9 / 4) = 3 / 2"
  by (rule real_sqrt_unique) (simp_all add: power2_eq_square)

lemma sqrt_one_quarter: "sqrt (1 / 4) = 1 / 2"
  by (rule real_sqrt_unique) (simp_all add: power2_eq_square)

lemma sqrt_625_256: "sqrt (625 / 256) = 25 / 16"
  by (rule real_sqrt_unique) (simp_all add: power2_eq_square)

lemma sqrt_hundred_million: "sqrt 100000000 = 10000"
  by (rule real_sqrt_unique) (simp_all add: power2_eq_square)

lemma floor_three_halves: "\<lfloor>3 / 2 :: real\<rfloor> = 1"
  by (simp add: floor_eq_iff)

lemma floor_25_16: "\<lfloor>25 / 16 :: real\<rfloor> = 1"
  by (simp add: floor_eq_iff)

section \<open>Bounds on the circle constant and on the converted angles\<close>

text \<open>
  The macro \<^verbatim>\<open>PI\<close> is the literal 3.1415, which is not \<open>pi\<close>. To say how far the
  converted angles are from a quarter turn and from a full turn, \<open>pi\<close> is enclosed between
  3.14159 and 3.1416, from the Maclaurin bound of the sine at two points next to \<open>pi / 6\<close>.
\<close>

lemma sum_lessThan_9:
  "(\<Sum>m<9. f m) = f 0 + f 1 + f 2 + f 3 + f 4 + f 5 + f 6 + f 7 + f 8"
  for f :: "nat \<Rightarrow> real"
proof -
  have "{..<9::nat} = {0, 1, 2, 3, 4, 5, 6, 7, 8}"
    by auto
  then show ?thesis
    by simp
qed

lemma sin_coeff_values:
  "sin_coeff 0 = 0" "sin_coeff 1 = 1" "sin_coeff (Suc 0) = 1" "sin_coeff 2 = 0"
  "sin_coeff 3 = - 1 / 6" "sin_coeff 4 = 0" "sin_coeff 5 = 1 / 120" "sin_coeff 6 = 0"
  "sin_coeff 7 = - 1 / 5040" "sin_coeff 8 = 0"
  by (simp_all add: sin_coeff_def fact_numeral)

lemma sin_poly_9:
  "(\<Sum>m<9. sin_coeff m * (x::real) ^ m) = x - x^3 / 6 + x^5 / 120 - x^7 / 5040"
  by (simp add: sum_lessThan_9 sin_coeff_values)

lemma sin_below_half: "sin (314159 / 600000 :: real) < 1 / 2"
proof -
  have "\<bar>sin (314159 / 600000 :: real) - (\<Sum>m<9. sin_coeff m * (314159 / 600000) ^ m)\<bar>
          \<le> inverse (fact 9) * \<bar>314159 / 600000\<bar> ^ 9"
    by (rule Maclaurin_sin_bound)
  then have "sin (314159 / 600000 :: real)
          \<le> (\<Sum>m<9. sin_coeff m * (314159 / 600000) ^ m) + inverse (fact 9) * \<bar>314159 / 600000\<bar> ^ 9"
    by linarith
  also have "\<dots> < 1 / 2"
    unfolding sin_poly_9 by (simp add: fact_numeral power_divide)
  finally show ?thesis .
qed

lemma sin_above_half: "1 / 2 < sin (1309 / 2500 :: real)"
proof -
  have "\<bar>sin (1309 / 2500 :: real) - (\<Sum>m<9. sin_coeff m * (1309 / 2500) ^ m)\<bar>
          \<le> inverse (fact 9) * \<bar>1309 / 2500\<bar> ^ 9"
    by (rule Maclaurin_sin_bound)
  then have "(\<Sum>m<9. sin_coeff m * (1309 / 2500) ^ m) - inverse (fact 9) * \<bar>1309 / 2500\<bar> ^ 9
          \<le> sin (1309 / 2500 :: real)"
    by linarith
  moreover have "1 / 2 < (\<Sum>m<9. sin_coeff m * (1309 / 2500 :: real) ^ m) - inverse (fact 9) * \<bar>1309 / 2500\<bar> ^ 9"
    unfolding sin_poly_9 by (simp add: fact_numeral power_divide)
  ultimately show ?thesis
    by linarith
qed

lemma pi_lower: "314159 / 100000 < pi"
proof (rule ccontr)
  assume "\<not> 314159 / 100000 < pi"
  then have "pi / 6 \<le> 314159 / 600000"
    by simp
  moreover have "(314159 / 600000 :: real) \<le> pi / 2"
    using pi_ge_two by simp
  moreover have "- (pi / 2) \<le> pi / 6"
    using pi_ge_zero by simp
  ultimately have "sin (pi / 6) \<le> sin (314159 / 600000 :: real)"
    by (intro sin_monotone_2pi_le)
  with sin_below_half show False
    by (simp add: sin_30)
qed

lemma pi_upper: "pi < 3927 / 1250"
proof (rule ccontr)
  assume "\<not> pi < 3927 / 1250"
  then have "1309 / 2500 \<le> pi / 6"
    by simp
  moreover have "pi / 6 \<le> pi / 2"
    using pi_ge_zero by simp
  moreover have "- (pi / 2) \<le> (1309 / 2500 :: real)"
    using pi_ge_zero by linarith
  ultimately have "sin (1309 / 2500 :: real) \<le> sin (pi / 6)"
    by (intro sin_monotone_2pi_le)
  with sin_above_half show False
    by (simp add: sin_30)
qed

text \<open>
  The angle of 90 degrees is converted with the literal 3.1415: the radians are
  \<open>90 * (3.1415 / 180) = 6283 / 4000\<close>, slightly less than \<open>pi / 2\<close>; those of 360 degrees are
  \<open>6283 / 1000\<close>, slightly less than \<open>2 * pi\<close>.
\<close>

lemma radians_90: "real_of_int 90 * (PI / 180) = 6283 / 4000"
  by (simp add: PI_def)

lemma radians_360: "real_of_int 360 * (PI / 180) = 6283 / 1000"
  by (simp add: PI_def)

lemma cos_90_pos: "0 < cos (6283 / 4000 :: real)"
proof -
  have "(6283 / 4000 :: real) < pi / 2"
    using pi_lower by simp
  moreover have "- (pi / 2) < (6283 / 4000 :: real)"
    using pi_ge_zero by linarith
  ultimately show ?thesis
    by (rule cos_gt_zero_pi [rotated])
qed

lemma cos_90_small: "cos (6283 / 4000 :: real) < 1 / 10000"
proof -
  have "cos (6283 / 4000 :: real) = sin (pi / 2 - 6283 / 4000)"
    by (simp add: sin_diff)
  also have "\<dots> \<le> pi / 2 - 6283 / 4000"
    using pi_lower by (intro sin_x_le_x) simp
  also have "\<dots> < 1 / 10000"
    using pi_upper by simp
  finally show ?thesis .
qed

lemma sin_90_pos: "0 < sin (6283 / 4000 :: real)"
proof -
  have "(6283 / 4000 :: real) < pi"
    using pi_lower by simp
  then show ?thesis
    by (intro sin_gt_zero) simp_all
qed

lemma sin_90_bounds: "99 / 100 < sin (6283 / 4000 :: real)" "sin (6283 / 4000 :: real) \<le> 1"
proof -
  define c where "c = cos (6283 / 4000 :: real)"
  define s where "s = sin (6283 / 4000 :: real)"
  have cs: "s * s = 1 - c * c"
    unfolding c_def s_def using sin_cos_squared_add3 [of "6283 / 4000 :: real"] by linarith
  have c0: "0 < c" and c1: "c < 1 / 10000"
    using cos_90_pos cos_90_small by (simp_all add: c_def)
  have "c * c < (1 / 10) * (1 / 10)"
    using c0 c1 by (intro mult_strict_mono) simp_all
  then have ss: "99 / 100 < s * s"
    using cs by simp
  have s0: "0 < s" and s1: "s \<le> 1"
    using sin_90_pos by (simp_all add: s_def)
  have "s * s \<le> s * 1"
    using s0 s1 by (intro mult_left_mono) simp_all
  with ss have "99 / 100 < s"
    by simp
  then show "99 / 100 < sin (6283 / 4000 :: real)" "sin (6283 / 4000 :: real) \<le> 1"
    by (simp_all add: s_def)
qed

lemma sin_small_lower: "1 / 10000 < sin (9 / 50000 :: real)"
proof -
  have "{..<3::nat} = {0, 1, 2}"
    by auto
  then have poly: "(\<Sum>m<3. sin_coeff m * (9 / 50000 :: real) ^ m) = 9 / 50000"
    by (simp add: sin_coeff_values)
  have "\<bar>sin (9 / 50000 :: real) - (\<Sum>m<3. sin_coeff m * (9 / 50000) ^ m)\<bar>
          \<le> inverse (fact 3) * \<bar>9 / 50000\<bar> ^ 3"
    by (rule Maclaurin_sin_bound)
  then have "9 / 50000 - inverse (fact 3) * \<bar>9 / 50000\<bar> ^ 3 \<le> sin (9 / 50000 :: real)"
    unfolding poly by linarith
  moreover have "1 / 10000 < 9 / 50000 - inverse (fact 3) * \<bar>9 / 50000 :: real\<bar> ^ 3"
    by (simp add: fact_numeral power_divide)
  ultimately show ?thesis
    by linarith
qed

lemma sin_360_negative: "sin (6283 / 1000 :: real) < - (1 / 10000)"
proof -
  define d where "d = 2 * pi - 6283 / 1000"
  have d_lo: "9 / 50000 \<le> d" and d_hi: "d \<le> pi / 2"
    using pi_lower pi_upper by (simp_all add: d_def)
  have "sin (9 / 50000 :: real) \<le> sin d"
    using d_lo d_hi pi_ge_zero by (intro sin_monotone_2pi_le) linarith+
  with sin_small_lower have "1 / 10000 < sin d"
    by linarith
  moreover have "sin d = - sin (6283 / 1000 :: real)"
    by (simp add: d_def sin_diff)
  ultimately show ?thesis
    by linarith
qed

section \<open>Properties of the operations\<close>

text \<open>
  What \<open>unitVector\<close> returns has the magnitude \<open>|v| / \<lfloor>|v|\<rfloor>\<close>: it is a unit vector exactly
  when the magnitude of the input is a whole number. With the angle 0, the rotation toward
  another vector returns \<open>v1\<close> scaled by that same quotient.
\<close>

lemma unitVector_magnitude:
  assumes "unitVector v = Inr u"
  shows "vectorMagnitude u = vectorMagnitude v / real_of_int \<lfloor>vectorMagnitude v\<rfloor>"
    and "0 < real_of_int \<lfloor>vectorMagnitude v\<rfloor>"
proof -
  define n where "n = real_of_int \<lfloor>vectorMagnitude v\<rfloor>"
  from assms have n0: "\<lfloor>vectorMagnitude v\<rfloor> \<noteq> 0"
    and u: "u = \<lparr>X = X v / n, Y = Y v / n, Z = Z v / n\<rparr>"
    by (auto simp add: unitVector_def Let_def n_def split: if_splits)
  have "0 \<le> \<lfloor>vectorMagnitude v\<rfloor>"
    using vectorMagnitude_nonneg [of v] by simp
  with n0 have "0 < \<lfloor>vectorMagnitude v\<rfloor>"
    by linarith
  then have npos: "0 < n"
    by (simp only: n_def of_int_0_less_iff)
  have "dotProduct u u = dotProduct v v / (n * n)"
    by (simp add: u dotProduct_def add_divide_distrib)
  then have "vectorMagnitude u = sqrt (dotProduct v v) / sqrt (n * n)"
    by (simp add: vectorMagnitude_dotProduct real_sqrt_divide)
  also have "sqrt (n * n) = n"
    using npos by simp
  finally show "vectorMagnitude u = vectorMagnitude v / real_of_int \<lfloor>vectorMagnitude v\<rfloor>"
    by (simp only: vectorMagnitude_dotProduct n_def)
  from npos show "0 < real_of_int \<lfloor>vectorMagnitude v\<rfloor>"
    by (simp only: n_def)
qed

lemma unitVector_magnitude_one_iff:
  assumes "unitVector v = Inr u"
  shows "vectorMagnitude u = 1 \<longleftrightarrow> vectorMagnitude v = real_of_int \<lfloor>vectorMagnitude v\<rfloor>"
proof -
  define m where "m = vectorMagnitude v"
  define n where "n = real_of_int \<lfloor>vectorMagnitude v\<rfloor>"
  have "vectorMagnitude u = m / n" and "0 < n"
    using unitVector_magnitude [OF assms] by (simp_all only: m_def n_def)
  then have "vectorMagnitude u = 1 \<longleftrightarrow> m = n"
    by (auto simp add: divide_eq_eq)
  then show ?thesis
    by (simp only: m_def n_def)
qed

lemma rotateThrough_angle_0:
  assumes "rotateVectorThroughAnotherVector v1 v2 0 = Inr r"
  shows "r = \<lparr>X = vectorMagnitude v1 * (X v1 / real_of_int \<lfloor>vectorMagnitude v1\<rfloor>),
              Y = vectorMagnitude v1 * (Y v1 / real_of_int \<lfloor>vectorMagnitude v1\<rfloor>),
              Z = vectorMagnitude v1 * (Z v1 / real_of_int \<lfloor>vectorMagnitude v1\<rfloor>)\<rparr>"
proof -
  from assms obtain e1 e2 where e1: "unitVector v1 = Inr e1"
    and r: "r = \<lparr>X = vectorMagnitude v1 * X e1, Y = vectorMagnitude v1 * Y e1,
                  Z = vectorMagnitude v1 * Z e1\<rparr>"
    by (auto simp add: rotateVectorThroughAnotherVector_def Let_def split: sum.splits)
  from e1 have "e1 = \<lparr>X = X v1 / real_of_int \<lfloor>vectorMagnitude v1\<rfloor>,
                        Y = Y v1 / real_of_int \<lfloor>vectorMagnitude v1\<rfloor>,
                        Z = Z v1 / real_of_int \<lfloor>vectorMagnitude v1\<rfloor>\<rparr>"
    by (auto simp add: unitVector_def Let_def split: if_splits)
  with r show ?thesis
    by simp
qed

lemma vectorComponentParallel_Inr:
  assumes "dotProduct v2 v2 \<noteq> 0"
  shows "vectorComponentParallelToAnotherVector v1 v2 =
           Inr \<lparr>X = dotProduct v1 v2 / dotProduct v2 v2 * X v2,
                Y = dotProduct v1 v2 / dotProduct v2 v2 * Y v2,
                Z = dotProduct v1 v2 / dotProduct v2 v2 * Z v2\<rparr>"
  using assms by (simp add: vectorComponentParallelToAnotherVector_def Let_def)

lemma vectorComponentParallel_InrD:
  assumes "vectorComponentParallelToAnotherVector v1 v2 = Inr p"
  shows "dotProduct v2 v2 \<noteq> 0"
    and "p = \<lparr>X = dotProduct v1 v2 / dotProduct v2 v2 * X v2,
               Y = dotProduct v1 v2 / dotProduct v2 v2 * Y v2,
               Z = dotProduct v1 v2 / dotProduct v2 v2 * Z v2\<rparr>"
  using assms
  by (auto simp add: vectorComponentParallelToAnotherVector_def Let_def split: if_splits)

lemma crossProduct_perpendicular_part:
  assumes "vectorComponentParallelToAnotherVector v1 v2 = Inr p"
  shows "crossProduct v2 (subtractVectors v1 p) = crossProduct v2 v1"
proof -
  note p = vectorComponentParallel_InrD [OF assms]
  show ?thesis
    by (simp add: p(2) crossProduct_def subtractVectors_def algebra_simps)
qed

lemma rotateAround_defined:
  assumes "v2 \<noteq> \<lparr>X = 0, Y = 0, Z = 0\<rparr>" and "crossProduct v2 v1 \<noteq> \<lparr>X = 0, Y = 0, Z = 0\<rparr>"
  shows "\<exists>r. rotateVectorAroundAnotherVector v1 v2 angle = Inr r"
proof -
  have nz: "dotProduct v2 v2 \<noteq> 0"
    using assms(1) by (simp add: dotProduct_self_zero_iff)
  from vectorComponentParallel_Inr [OF nz, of v1]
  obtain p where p: "vectorComponentParallelToAnotherVector v1 v2 = Inr p"
    by blast
  have "vectorMagnitude (crossProduct v2 (subtractVectors v1 p)) \<noteq> 0"
    using assms(2) by (simp add: crossProduct_perpendicular_part [OF p] vectorMagnitude_zero_iff)
  then show ?thesis
    by (simp add: rotateVectorAroundAnotherVector_def Let_def p)
qed

text \<open>
  With the angle 0 the rotation around an axis returns its argument, whenever it returns:
  the cosine is 1, the sine is 0, and the parallel and perpendicular parts add up to \<open>v1\<close>.
\<close>

lemma rotateAround_angle_0:
  assumes "v2 \<noteq> \<lparr>X = 0, Y = 0, Z = 0\<rparr>" and "crossProduct v2 v1 \<noteq> \<lparr>X = 0, Y = 0, Z = 0\<rparr>"
  shows "rotateVectorAroundAnotherVector v1 v2 0 = Inr v1"
proof -
  have nz: "dotProduct v2 v2 \<noteq> 0"
    using assms(1) by (simp add: dotProduct_self_zero_iff)
  from vectorComponentParallel_Inr [OF nz, of v1]
  obtain p where p: "vectorComponentParallelToAnotherVector v1 v2 = Inr p"
    by blast
  have "vectorMagnitude (crossProduct v2 (subtractVectors v1 p)) \<noteq> 0"
    using assms(2) by (simp add: crossProduct_perpendicular_part [OF p] vectorMagnitude_zero_iff)
  then show ?thesis
    by (simp add: rotateVectorAroundAnotherVector_def Let_def p subtractVectors_def)
qed

text \<open>
  The rotation around an axis keeps the squared magnitude, for every angle: the three
  summands of the result are orthogonal, and \<open>cos\<^sup>2 + sin\<^sup>2 = 1\<close> whatever the radians are.
\<close>

lemma rotation_norm_identity:
  fixes px py pz qx qy qz tx ty tz m c s :: real
  assumes pq: "px * qx + py * qy + pz * qz = 0"
    and pt: "px * tx + py * ty + pz * tz = 0"
    and qt: "qx * tx + qy * ty + qz * tz = 0"
    and tt: "tx * tx + ty * ty + tz * tz = 1"
    and mm: "m * m = qx * qx + qy * qy + qz * qz"
    and cs: "c * c + s * s = 1"
  shows "(px + qx * c + m * tx * s) * (px + qx * c + m * tx * s)
       + (py + qy * c + m * ty * s) * (py + qy * c + m * ty * s)
       + (pz + qz * c + m * tz * s) * (pz + qz * c + m * tz * s)
       = (px + qx) * (px + qx) + (py + qy) * (py + qy) + (pz + qz) * (pz + qz)"
proof -
  have "(px + qx * c + m * tx * s) * (px + qx * c + m * tx * s)
       + (py + qy * c + m * ty * s) * (py + qy * c + m * ty * s)
       + (pz + qz * c + m * tz * s) * (pz + qz * c + m * tz * s)
      = (px * px + py * py + pz * pz)
        + c * c * (qx * qx + qy * qy + qz * qz)
        + s * s * (m * m) * (tx * tx + ty * ty + tz * tz)
        + 2 * c * (px * qx + py * qy + pz * qz)
        + 2 * m * s * (px * tx + py * ty + pz * tz)
        + 2 * c * m * s * (qx * tx + qy * ty + qz * tz)"
    by (simp add: algebra_simps)
  also have "\<dots> = (px * px + py * py + pz * pz) + (c * c + s * s) * (qx * qx + qy * qy + qz * qz)"
    by (simp only: pq pt qt tt mm) (simp add: algebra_simps)
  also have "\<dots> = (px * px + py * py + pz * pz) + (qx * qx + qy * qy + qz * qz)
                      + 2 * (px * qx + py * qy + pz * qz)"
    by (simp only: cs pq) simp
  also have "\<dots> = (px + qx) * (px + qx) + (py + qy) * (py + qy) + (pz + qz) * (pz + qz)"
    by (simp add: algebra_simps)
  finally show ?thesis .
qed

lemma rotateAround_preserves_dotProduct:
  assumes "rotateVectorAroundAnotherVector v1 v2 angle = Inr r"
  shows "dotProduct r r = dotProduct v1 v1"
proof -
  from assms obtain p where p: "vectorComponentParallelToAnotherVector v1 v2 = Inr p"
    by (auto simp add: rotateVectorAroundAnotherVector_def Let_def split: sum.splits)
  define q where "q = subtractVectors v1 p"
  define w where "w = crossProduct v2 q"
  define m where "m = vectorMagnitude q"
  define n where "n = vectorMagnitude w"
  define c where "c = cos (real_of_int angle * (PI / 180))"
  define s where "s = sin (real_of_int angle * (PI / 180))"
  from assms p have n0: "n \<noteq> 0"
    and r: "r = \<lparr>X = X p + X q * c + m * (X w / n) * s,
                 Y = Y p + Y q * c + m * (Y w / n) * s,
                 Z = Z p + Z q * c + m * (Z w / n) * s\<rparr>"
    by (auto simp add: rotateVectorAroundAnotherVector_def Let_def q_def w_def m_def n_def
        c_def s_def split: if_splits)
  note pd = vectorComponentParallel_InrD [OF p]
  define a where "a = dotProduct v1 v2 / dotProduct v2 v2"
  have a: "a * dotProduct v2 v2 = dotProduct v1 v2"
    using pd(1) by (simp add: a_def)
  have pX: "X p = a * X v2" and pY: "Y p = a * Y v2" and pZ: "Z p = a * Z v2"
    by (simp_all add: pd(2) a_def)
  have qX: "X q = X v1 - X p" and qY: "Y q = Y v1 - Y p" and qZ: "Z q = Z v1 - Z p"
    by (simp_all add: q_def subtractVectors_def)
  have wX: "X w = Y v2 * Z q - Z v2 * Y q" and wY: "Y w = Z v2 * X q - X v2 * Z q"
    and wZ: "Z w = X v2 * Y q - Y v2 * X q"
    by (simp_all add: w_def crossProduct_def)
  have "X p * X q + Y p * Y q + Z p * Z q
      = a * (X v1 * X v2 + Y v1 * Y v2 + Z v1 * Z v2)
        - a * (a * (X v2 * X v2 + Y v2 * Y v2 + Z v2 * Z v2))"
    by (simp add: pX pY pZ qX qY qZ algebra_simps)
  also have "\<dots> = 0"
    using a by (simp add: dotProduct_def)
  finally have pq: "X p * X q + Y p * Y q + Z p * Z q = 0" .
  have pw: "X p * X w + Y p * Y w + Z p * Z w = 0"
    by (simp add: pX pY pZ wX wY wZ algebra_simps)
  have qw: "X q * X w + Y q * Y w + Z q * Z w = 0"
    by (simp add: wX wY wZ algebra_simps)
  have nn: "n * n = X w * X w + Y w * Y w + Z w * Z w"
    by (simp add: n_def vectorMagnitude_def)
  have mm: "m * m = X q * X q + Y q * Y q + Z q * Z q"
    by (simp add: m_def vectorMagnitude_def)
  have pt: "X p * (X w / n) + Y p * (Y w / n) + Z p * (Z w / n) = 0"
  proof -
    have "X p * (X w / n) + Y p * (Y w / n) + Z p * (Z w / n)
        = (X p * X w + Y p * Y w + Z p * Z w) / n"
      by (simp add: add_divide_distrib)
    then show ?thesis
      by (simp add: pw)
  qed
  have qt: "X q * (X w / n) + Y q * (Y w / n) + Z q * (Z w / n) = 0"
  proof -
    have "X q * (X w / n) + Y q * (Y w / n) + Z q * (Z w / n)
        = (X q * X w + Y q * Y w + Z q * Z w) / n"
      by (simp add: add_divide_distrib)
    then show ?thesis
      by (simp add: qw)
  qed
  have tt: "(X w / n) * (X w / n) + (Y w / n) * (Y w / n) + (Z w / n) * (Z w / n) = 1"
  proof -
    have "(X w / n) * (X w / n) + (Y w / n) * (Y w / n) + (Z w / n) * (Z w / n)
        = (X w * X w + Y w * Y w + Z w * Z w) / (n * n)"
      by (simp add: add_divide_distrib)
    also have "\<dots> = 1"
      using n0 by (simp only: nn [symmetric]) simp
    finally show ?thesis .
  qed
  have cs: "c * c + s * s = 1"
    by (simp add: c_def s_def)
  have "dotProduct r r =
      (X p + X q * c + m * (X w / n) * s) * (X p + X q * c + m * (X w / n) * s)
    + (Y p + Y q * c + m * (Y w / n) * s) * (Y p + Y q * c + m * (Y w / n) * s)
    + (Z p + Z q * c + m * (Z w / n) * s) * (Z p + Z q * c + m * (Z w / n) * s)"
    by (simp add: r dotProduct_def)
  also have "\<dots> = (X p + X q) * (X p + X q) + (Y p + Y q) * (Y p + Y q) + (Z p + Z q) * (Z p + Z q)"
    by (rule rotation_norm_identity [OF pq pt qt tt mm cs])
  also have "\<dots> = dotProduct v1 v1"
    by (simp add: qX qY qZ dotProduct_def)
  finally show ?thesis .
qed

text \<open>
  The signed magnitude that the decomposition reports for an axis \<open>b\<close> is the scalar
  projection \<open>v \<cdot> b / |b|\<close>.
\<close>

lemma projection_signed_magnitude:
  assumes "vectorComponentParallelToAnotherVector v b = Inr p"
  shows "(if isVectorsInOppositeDirection b p then - vectorMagnitude p else vectorMagnitude p)
           = dotProduct v b / vectorMagnitude b"
proof -
  note pd = vectorComponentParallel_InrD [OF assms]
  define a where "a = dotProduct v b / dotProduct b b"
  define d where "d = dotProduct b b"
  have d_pos: "0 < d"
    using pd(1) dotProduct_self_nonneg [of b] by (simp add: d_def)
  have p: "p = \<lparr>X = a * X b, Y = a * Y b, Z = a * Z b\<rparr>"
    by (simp add: pd(2) a_def)
  have "dotProduct b p = a * d"
    by (simp add: p dotProduct_def d_def algebra_simps)
  then have opp: "isVectorsInOppositeDirection b p \<longleftrightarrow> a < 0"
    using d_pos by (simp add: isVectorsInOppositeDirection_def mult_less_0_iff)
  have "dotProduct p p = a * a * d"
    by (simp add: p dotProduct_def d_def algebra_simps)
  then have "vectorMagnitude p = sqrt (a * a * d)"
    by (simp add: vectorMagnitude_dotProduct)
  then have mag: "vectorMagnitude p = \<bar>a\<bar> * sqrt d"
    by (simp add: real_sqrt_mult)
  have vb: "dotProduct v b = a * d"
    using pd(1) by (simp add: a_def d_def)
  have "d / sqrt d = sqrt d"
    using d_pos by (intro real_div_sqrt) simp
  then have "a * d / sqrt d = a * sqrt d"
    by (simp only: times_divide_eq_right [symmetric])
  then have "dotProduct v b / vectorMagnitude b = a * sqrt d"
    by (simp add: vb vectorMagnitude_dotProduct d_def [symmetric])
  with opp mag show ?thesis
    by simp
qed

lemma findVectorsMagnitude_defined:
  assumes "vUp orientation \<noteq> \<lparr>X = 0, Y = 0, Z = 0\<rparr>"
    and "vFront orientation \<noteq> \<lparr>X = 0, Y = 0, Z = 0\<rparr>"
    and "vRight orientation \<noteq> \<lparr>X = 0, Y = 0, Z = 0\<rparr>"
  shows "\<exists>g. findVectorsMagnitudeInTheOrientation v orientation = Inr g"
  using assms
  by (simp add: findVectorsMagnitudeInTheOrientation_def findVectorComponentsInTheOrientation_def
      vectorComponentParallelToAnotherVector_def dotProduct_self_zero_iff Let_def)

lemma findVectorsMagnitude_scalar_projection:
  assumes "findVectorsMagnitudeInTheOrientation v orientation = Inr g"
  shows "UP g = dotProduct v (vUp orientation) / vectorMagnitude (vUp orientation)"
    and "FRONT g = dotProduct v (vFront orientation) / vectorMagnitude (vFront orientation)"
    and "RIGHT g = dotProduct v (vRight orientation) / vectorMagnitude (vRight orientation)"
proof -
  from assms obtain cUp cFront cRight where
    c: "vectorComponentParallelToAnotherVector v (vUp orientation) = Inr cUp"
       "vectorComponentParallelToAnotherVector v (vFront orientation) = Inr cFront"
       "vectorComponentParallelToAnotherVector v (vRight orientation) = Inr cRight"
    by (auto simp add: findVectorsMagnitudeInTheOrientation_def
        findVectorComponentsInTheOrientation_def split: sum.splits)
  have comps: "findVectorComponentsInTheOrientation v orientation
      = Inr \<lparr>vUp = cUp, vFront = cFront, vRight = cRight\<rparr>"
    by (simp add: findVectorComponentsInTheOrientation_def c)
  have up: "UP g = (if isVectorsInOppositeDirection (vUp orientation) cUp
                    then - vectorMagnitude cUp else vectorMagnitude cUp)"
    using assms by (auto simp add: findVectorsMagnitudeInTheOrientation_def comps Let_def)
  have front: "FRONT g = (if isVectorsInOppositeDirection (vFront orientation) cFront
                    then - vectorMagnitude cFront else vectorMagnitude cFront)"
    using assms by (auto simp add: findVectorsMagnitudeInTheOrientation_def comps Let_def)
  have right: "RIGHT g = (if isVectorsInOppositeDirection (vRight orientation) cRight
                    then - vectorMagnitude cRight else vectorMagnitude cRight)"
    using assms by (auto simp add: findVectorsMagnitudeInTheOrientation_def comps Let_def)
  show "UP g = dotProduct v (vUp orientation) / vectorMagnitude (vUp orientation)"
    by (simp only: up projection_signed_magnitude [OF c(1)])
  show "FRONT g = dotProduct v (vFront orientation) / vectorMagnitude (vFront orientation)"
    by (simp only: front projection_signed_magnitude [OF c(2)])
  show "RIGHT g = dotProduct v (vRight orientation) / vectorMagnitude (vRight orientation)"
    by (simp only: right projection_signed_magnitude [OF c(3)])
qed

section \<open>The operations at concrete inputs\<close>

lemma unitVector_unit_z: "unitVector \<lparr>X = 0, Y = 0, Z = 1\<rparr> = Inr \<lparr>X = 0, Y = 0, Z = 1\<rparr>"
  by (simp add: unitVector_def Let_def vectorMagnitude_def)

lemma unitVector_three_halves_x:
  "unitVector \<lparr>X = 3 / 2, Y = 0, Z = 0\<rparr> = Inr \<lparr>X = 3 / 2, Y = 0, Z = 0\<rparr>"
  by (simp add: unitVector_def Let_def vectorMagnitude_def sqrt_nine_quarters floor_three_halves)

lemma unitVector_three_halves_z:
  "unitVector \<lparr>X = 0, Y = 0, Z = 3 / 2\<rparr> = Inr \<lparr>X = 0, Y = 0, Z = 3 / 2\<rparr>"
  by (simp add: unitVector_def Let_def vectorMagnitude_def sqrt_nine_quarters floor_three_halves)

lemma unitVector_u2_example:
  "unitVector \<lparr>X = 15 / 16, Y = 0, Z = 5 / 4\<rparr> = Inr \<lparr>X = 15 / 16, Y = 0, Z = 5 / 4\<rparr>"
  by (simp add: unitVector_def Let_def vectorMagnitude_def sqrt_625_256 floor_25_16)

lemma rotateThrough_example:
  "rotateVectorThroughAnotherVector \<lparr>X = 0, Y = 0, Z = 1\<rparr> \<lparr>X = 3 / 2, Y = 0, Z = 0\<rparr> 90
     = Inr \<lparr>X = sin (6283 / 4000) * (3 / 2), Y = 0, Z = cos (6283 / 4000)\<rparr>"
  by (simp add: rotateVectorThroughAnotherVector_def Let_def unitVector_unit_z dotProduct_def
      unitVector_three_halves_x PI_def vectorMagnitude_def)

lemma findOrientation_example:
  "\<exists>right. findOrientation \<lparr>X = 0, Y = 0, Z = 1\<rparr> \<lparr>X = 3 / 2, Y = 0, Z = 0\<rparr>
     = Inr \<lparr>vUp = \<lparr>X = 0, Y = 0, Z = 1\<rparr>,
            vFront = \<lparr>X = sin (6283 / 4000) * (3 / 2), Y = 0, Z = cos (6283 / 4000)\<rparr>,
            vRight = right\<rparr>"
proof -
  let ?front = "\<lparr>X = sin (6283 / 4000) * (3 / 2), Y = 0, Z = cos (6283 / 4000)\<rparr>"
  have "?front \<noteq> \<lparr>X = 0, Y = 0, Z = 0\<rparr>"
    using sin_90_pos by simp
  moreover have "crossProduct ?front \<lparr>X = 0, Y = 0, Z = 1\<rparr> \<noteq> \<lparr>X = 0, Y = 0, Z = 0\<rparr>"
    using sin_90_pos by (simp add: crossProduct_def)
  ultimately obtain right where
    "rotateVectorAroundAnotherVector \<lparr>X = 0, Y = 0, Z = 1\<rparr> ?front 90 = Inr right"
    using rotateAround_defined by blast
  then show ?thesis
    by (simp add: findOrientation_def rotateThrough_example)
qed

lemma vFront_example_magnitude:
  "7 / 5 < vectorMagnitude \<lparr>X = sin (6283 / 4000) * (3 / 2), Y = 0, Z = cos (6283 / 4000)\<rparr>"
proof -
  define c where "c = cos (6283 / 4000 :: real)"
  define s where "s = sin (6283 / 4000 :: real)"
  have cs: "s * s = 1 - c * c"
    unfolding c_def s_def using sin_cos_squared_add3 [of "6283 / 4000 :: real"] by linarith
  have c0: "0 < c" and c1: "c < 1 / 10000"
    using cos_90_pos cos_90_small by (simp_all add: c_def)
  have "c * c < (1 / 10) * (1 / 10)"
    using c0 c1 by (intro mult_strict_mono) simp_all
  then have cc: "c * c < 1 / 100"
    by simp
  have "49 / 25 < 9 / 4 * (s * s) + c * c"
    using cs cc by linarith
  moreover have "(7 / 5 :: real)\<^sup>2 = 49 / 25"
    by (simp add: power2_eq_square)
  ultimately have "(7 / 5)\<^sup>2 < 9 / 4 * (s * s) + c * c"
    by (simp only:)
  then have "7 / 5 < sqrt (9 / 4 * (s * s) + c * c)"
    by (rule real_less_rsqrt)
  moreover have "vectorMagnitude \<lparr>X = s * (3 / 2), Y = 0, Z = c\<rparr> = sqrt (9 / 4 * (s * s) + c * c)"
    by (simp add: vectorMagnitude_def algebra_simps)
  ultimately show ?thesis
    by (simp only: c_def s_def)
qed

lemma rotateThrough_example_2:
  "rotateVectorThroughAnotherVector \<lparr>X = 0, Y = 0, Z = 3 / 2\<rparr> \<lparr>X = 15 / 16, Y = 0, Z = - 1\<rparr> 90
     = Inr \<lparr>X = 45 / 32 * sin (6283 / 4000), Y = 0,
            Z = 9 / 4 * cos (6283 / 4000) + 15 / 8 * sin (6283 / 4000)\<rparr>"
  by (simp add: rotateVectorThroughAnotherVector_def Let_def unitVector_three_halves_z
      dotProduct_def unitVector_u2_example PI_def vectorMagnitude_def sqrt_nine_quarters)

lemma rotateAround_360_example:
  "rotateVectorAroundAnotherVector \<lparr>X = 10000, Y = 0, Z = 0\<rparr> \<lparr>X = 0, Y = 0, Z = 1\<rparr> 360
     = Inr \<lparr>X = 10000 * cos (6283 / 1000), Y = 10000 * sin (6283 / 1000), Z = 0\<rparr>"
  by (simp add: rotateVectorAroundAnotherVector_def Let_def
      vectorComponentParallelToAnotherVector_def dotProduct_def subtractVectors_def
      crossProduct_def vectorMagnitude_def sqrt_hundred_million PI_def)

section \<open>Rounding\<close>

lemma round_half_even_of_int [simp]: "round_half_even (real_of_int n) = n"
  by (simp add: round_half_even_def)

lemma round_half_even_numeral [simp]:
  "round_half_even (numeral n) = numeral n" "round_half_even 0 = 0" "round_half_even 1 = 1"
  by (simp_all add: round_half_even_def)

lemma round_half_even_neg_numeral [simp]: "round_half_even (- numeral n) = - numeral n"
  by (simp add: round_half_even_def)

lemma round_half_even_nonneg: "0 \<le> y \<Longrightarrow> 0 \<le> round_half_even y"
  by (auto simp add: round_half_even_def Let_def)

lemma round_half_even_le: "y \<le> real_of_int N \<Longrightarrow> round_half_even y \<le> N"
proof -
  assume a: "y \<le> real_of_int N"
  show ?thesis
  proof (cases "y = real_of_int N")
    case True
    then show ?thesis by simp
  next
    case False
    with a have "y < real_of_int N" by simp
    then have "\<lfloor>y\<rfloor> < N" by (simp add: floor_less_iff)
    then show ?thesis
      by (auto simp add: round_half_even_def Let_def)
  qed
qed

lemma binary_round_zero [simp]: "binary_round p emin 0 = 0"
  by (simp add: binary_round_def)

lemma binary_round_nonneg: "0 \<le> x \<Longrightarrow> 0 \<le> binary_round p emin x"
  by (auto simp add: binary_round_def Let_def intro!: mult_nonneg_nonneg round_half_even_nonneg)

text \<open>
  Once the exponent of \<open>x\<close> is known, its rounding is a rounding to an integer.
\<close>

lemma binary_round_eval:
  assumes "2 powr real_of_int e \<le> \<bar>x\<bar>" and "\<bar>x\<bar> < 2 powr real_of_int (e + 1)" and "emin \<le> e"
  shows "binary_round p emin x =
           real_of_int (round_half_even (x / 2 powr real_of_int (e - int p + 1)))
             * 2 powr real_of_int (e - int p + 1)"
proof -
  have pos: "0 < \<bar>x\<bar>"
    using assms(1) by (smt (verit) powr_gt_zero)
  then have "\<lfloor>log 2 \<bar>x\<bar>\<rfloor> = e"
    using assms(1,2) by (subst floor_log_eq_powr_iff) simp_all
  moreover have "x \<noteq> 0"
    using pos by simp
  ultimately show ?thesis
    using assms(3) by (simp add: binary_round_def Let_def max_def)
qed

lemma float_round_zero [simp]: "float_round 0 = 0"
  by (simp add: float_round_def)

lemma double_round_zero [simp]: "double_round 0 = 0"
  by (simp add: double_round_def)

lemma float_round_nonneg: "0 \<le> x \<Longrightarrow> 0 \<le> float_round x"
  by (simp add: float_round_def binary_round_nonneg)

text \<open>
  Rounding does not go beyond a power of two that bounds its argument.
\<close>

lemma float_round_le_pow2:
  assumes "0 \<le> x" and "x \<le> 2 powr real_of_int k" and "- 126 < k"
  shows "float_round x \<le> 2 powr real_of_int k"
proof (cases "x = 0")
  case True
  then show ?thesis by (simp add: float_round_def)
next
  case False
  with assms(1) have pos: "0 < x" by simp
  define e where "e = max \<lfloor>log 2 \<bar>x\<bar>\<rfloor> (- 126)"
  define u where "u = 2 powr real_of_int (e - int 24 + 1)"
  have "log 2 x \<le> real_of_int k"
    using pos assms(2) by (simp add: log_le_iff)
  then have "\<lfloor>log 2 \<bar>x\<bar>\<rfloor> \<le> k"
    using pos by (simp add: floor_le_iff)
  with assms(3) have ek: "e \<le> k"
    by (simp add: e_def)
  have u_pos: "0 < u"
    by (simp add: u_def)
  have "2 powr real_of_int k / u = 2 powr real_of_int (k - e + 23)"
    by (simp add: u_def powr_diff [symmetric] algebra_simps)
  also have "\<dots> = real_of_int (2 ^ nat (k - e + 23))"
    using ek by (subst powr_real_of_int) auto
  finally have cap: "2 powr real_of_int k / u = real_of_int (2 ^ nat (k - e + 23))" .
  have "x / u \<le> 2 powr real_of_int k / u"
    using assms(2) u_pos by (simp add: divide_right_mono)
  then have "round_half_even (x / u) \<le> 2 ^ nat (k - e + 23)"
    unfolding cap by (rule round_half_even_le)
  then have "real_of_int (round_half_even (x / u)) \<le> real_of_int (2 ^ nat (k - e + 23))"
    by (simp only: of_int_le_iff)
  then have "real_of_int (round_half_even (x / u)) * u \<le> real_of_int (2 ^ nat (k - e + 23)) * u"
    using u_pos by (simp add: mult_right_mono)
  also have "\<dots> = 2 powr real_of_int k"
    using u_pos by (simp only: cap [symmetric]) simp
  finally have "real_of_int (round_half_even (x / u)) * u \<le> 2 powr real_of_int k" .
  moreover have "float_round x = real_of_int (round_half_even (x / u)) * u"
    using False by (simp add: float_round_def binary_round_def Let_def e_def u_def)
  ultimately show ?thesis
    by simp
qed

lemma float_round_le_values:
  assumes "0 \<le> x"
  shows "x \<le> 1 / 16 \<Longrightarrow> float_round x \<le> 1 / 16"
    and "x \<le> 1 / 8 \<Longrightarrow> float_round x \<le> 1 / 8"
    and "x \<le> 1 / 4 \<Longrightarrow> float_round x \<le> 1 / 4"
    and "x \<le> 1 / 2 \<Longrightarrow> float_round x \<le> 1 / 2"
  using float_round_le_pow2 [OF assms, of "- 4"] float_round_le_pow2 [OF assms, of "- 3"]
    float_round_le_pow2 [OF assms, of "- 2"] float_round_le_pow2 [OF assms, of "- 1"]
  by (simp_all add: powr_neg_numeral)

text \<open>
  The roundings that the concrete inputs below go through.
\<close>

lemma float_round_values:
  shows "float_round 1 = 1"
    and "float_round 2 = 2"
    and "float_round (1 / 2) = 1 / 2"
    and "float_round (1 / 4) = 1 / 4"
    and "float_round (16777215 / 16777216) = 16777215 / 16777216"
    and "float_round (5 / 16384) = 5 / 16384"
    and "float_round (281474943156225 / 281474976710656) = 8388607 / 8388608"
    and "float_round (25 / 268435456) = 25 / 268435456"
    and "float_round (268435449 / 268435456) = 1"
    and "float_round (3 / 2) = 3 / 2"
    and "float_round (9 / 4) = 9 / 4"
    and "float_round 16728100 = 16728100"
    and "float_round 49729 = 49729"
    and "float_round 16777829 = 16777828"
    and "float_round 50184300 = 50184300"
    and "float_round 149187 = 149187"
    and "float_round 50333487 = 50333488"
    and "float_round (3372752186235343 / 274877906944) = 12564481 / 1024"
    and "float_round (5884586699504989 / 8796093022208) = 10960897 / 16384"
    and "float_round (- (1 / 1024)) = - (1 / 1024)"
    and "float_round (- (1 / 16384)) = - (1 / 16384)"
    and "float_round (- (2045 / 8192)) = - (2045 / 8192)"
    and "float_round (- (223 / 1024)) = - (223 / 1024)"
    and "float_round (- (261 / 8192)) = - (261 / 8192)"
    and "float_round (68121 / 67108864) = 68121 / 67108864"
    and "float_round (261 / 8192) = 261 / 8192"
    and "float_round 16777828 = 16777828"
    and "float_round 50333488 = 50333488"
    and "float_round (12564481 / 1024) = 12564481 / 1024"
    and "float_round (10960897 / 16384) = 10960897 / 16384"
    and "float_round 12270 = 12270"
    and "float_round 669 = 669"
    and "float_round 4090 = 4090"
    and "float_round 223 = 223"
proof -
  show "float_round 1 = 1"
    unfolding float_round_def
    by (subst binary_round_eval [where e = "0"])
      (simp_all add: powr_neg_numeral round_half_even_def Let_def)
  show "float_round 2 = 2"
    unfolding float_round_def
    by (subst binary_round_eval [where e = "1"])
      (simp_all add: powr_neg_numeral round_half_even_def Let_def)
  show "float_round (1 / 2) = 1 / 2"
    unfolding float_round_def
    by (subst binary_round_eval [where e = "- 1"])
      (simp_all add: powr_neg_numeral round_half_even_def Let_def)
  show "float_round (1 / 4) = 1 / 4"
    unfolding float_round_def
    by (subst binary_round_eval [where e = "- 2"])
      (simp_all add: powr_neg_numeral round_half_even_def Let_def)
  show "float_round (16777215 / 16777216) = 16777215 / 16777216"
    unfolding float_round_def
    by (subst binary_round_eval [where e = "- 1"])
      (simp_all add: powr_neg_numeral round_half_even_def Let_def)
  show "float_round (5 / 16384) = 5 / 16384"
    unfolding float_round_def
    by (subst binary_round_eval [where e = "- 12"])
      (simp_all add: powr_neg_numeral round_half_even_def Let_def)
  show "float_round (281474943156225 / 281474976710656) = 8388607 / 8388608"
    unfolding float_round_def
    by (subst binary_round_eval [where e = "- 1"])
      (simp_all add: powr_neg_numeral round_half_even_def Let_def)
  show "float_round (25 / 268435456) = 25 / 268435456"
    unfolding float_round_def
    by (subst binary_round_eval [where e = "- 24"])
      (simp_all add: powr_neg_numeral round_half_even_def Let_def)
  show "float_round (268435449 / 268435456) = 1"
    unfolding float_round_def
    by (subst binary_round_eval [where e = "- 1"])
      (simp_all add: powr_neg_numeral round_half_even_def Let_def)
  show "float_round (3 / 2) = 3 / 2"
    unfolding float_round_def
    by (subst binary_round_eval [where e = "0"])
      (simp_all add: powr_neg_numeral round_half_even_def Let_def)
  show "float_round (9 / 4) = 9 / 4"
    unfolding float_round_def
    by (subst binary_round_eval [where e = "1"])
      (simp_all add: powr_neg_numeral round_half_even_def Let_def)
  show "float_round 16728100 = 16728100"
    unfolding float_round_def
    by (subst binary_round_eval [where e = "23"])
      (simp_all add: powr_neg_numeral round_half_even_def Let_def)
  show "float_round 49729 = 49729"
    unfolding float_round_def
    by (subst binary_round_eval [where e = "15"])
      (simp_all add: powr_neg_numeral round_half_even_def Let_def)
  show "float_round 16777829 = 16777828"
    unfolding float_round_def
    by (subst binary_round_eval [where e = "24"])
      (simp_all add: powr_neg_numeral round_half_even_def Let_def)
  show "float_round 50184300 = 50184300"
    unfolding float_round_def
    by (subst binary_round_eval [where e = "25"])
      (simp_all add: powr_neg_numeral round_half_even_def Let_def)
  show "float_round 149187 = 149187"
    unfolding float_round_def
    by (subst binary_round_eval [where e = "17"])
      (simp_all add: powr_neg_numeral round_half_even_def Let_def)
  show "float_round 50333487 = 50333488"
    unfolding float_round_def
    by (subst binary_round_eval [where e = "25"])
      (simp_all add: powr_neg_numeral round_half_even_def Let_def)
  show "float_round (3372752186235343 / 274877906944) = 12564481 / 1024"
    unfolding float_round_def
    by (subst binary_round_eval [where e = "13"])
      (simp_all add: powr_neg_numeral round_half_even_def Let_def)
  show "float_round (5884586699504989 / 8796093022208) = 10960897 / 16384"
    unfolding float_round_def
    by (subst binary_round_eval [where e = "9"])
      (simp_all add: powr_neg_numeral round_half_even_def Let_def)
  show "float_round (- (1 / 1024)) = - (1 / 1024)"
    unfolding float_round_def
    by (subst binary_round_eval [where e = "- 10"])
      (simp_all add: powr_neg_numeral round_half_even_def Let_def)
  show "float_round (- (1 / 16384)) = - (1 / 16384)"
    unfolding float_round_def
    by (subst binary_round_eval [where e = "- 14"])
      (simp_all add: powr_neg_numeral round_half_even_def Let_def)
  show "float_round (- (2045 / 8192)) = - (2045 / 8192)"
    unfolding float_round_def
    by (subst binary_round_eval [where e = "- 3"])
      (simp_all add: powr_neg_numeral round_half_even_def Let_def)
  show "float_round (- (223 / 1024)) = - (223 / 1024)"
    unfolding float_round_def
    by (subst binary_round_eval [where e = "- 3"])
      (simp_all add: powr_neg_numeral round_half_even_def Let_def)
  show "float_round (- (261 / 8192)) = - (261 / 8192)"
    unfolding float_round_def
    by (subst binary_round_eval [where e = "- 5"])
      (simp_all add: powr_neg_numeral round_half_even_def Let_def)
  show "float_round (68121 / 67108864) = 68121 / 67108864"
    unfolding float_round_def
    by (subst binary_round_eval [where e = "- 10"])
      (simp_all add: powr_neg_numeral round_half_even_def Let_def)
  show "float_round (261 / 8192) = 261 / 8192"
    unfolding float_round_def
    by (subst binary_round_eval [where e = "- 5"])
      (simp_all add: powr_neg_numeral round_half_even_def Let_def)
  show "float_round 16777828 = 16777828"
    unfolding float_round_def
    by (subst binary_round_eval [where e = "24"])
      (simp_all add: powr_neg_numeral round_half_even_def Let_def)
  show "float_round 50333488 = 50333488"
    unfolding float_round_def
    by (subst binary_round_eval [where e = "25"])
      (simp_all add: powr_neg_numeral round_half_even_def Let_def)
  show "float_round (12564481 / 1024) = 12564481 / 1024"
    unfolding float_round_def
    by (subst binary_round_eval [where e = "13"])
      (simp_all add: powr_neg_numeral round_half_even_def Let_def)
  show "float_round (10960897 / 16384) = 10960897 / 16384"
    unfolding float_round_def
    by (subst binary_round_eval [where e = "9"])
      (simp_all add: powr_neg_numeral round_half_even_def Let_def)
  show "float_round 12270 = 12270"
    unfolding float_round_def
    by (subst binary_round_eval [where e = "13"])
      (simp_all add: powr_neg_numeral round_half_even_def Let_def)
  show "float_round 669 = 669"
    unfolding float_round_def
    by (subst binary_round_eval [where e = "9"])
      (simp_all add: powr_neg_numeral round_half_even_def Let_def)
  show "float_round 4090 = 4090"
    unfolding float_round_def
    by (subst binary_round_eval [where e = "11"])
      (simp_all add: powr_neg_numeral round_half_even_def Let_def)
  show "float_round 223 = 223"
    unfolding float_round_def
    by (subst binary_round_eval [where e = "7"])
      (simp_all add: powr_neg_numeral round_half_even_def Let_def)
qed

lemma double_round_values:
  shows "double_round 2 = 2"
    and "double_round (12583372 / 4194457) = 6755399977907073 / 2251799813685248"
    and "double_round (13814792954819964285 / 1125899906842624) = 3372752186235343 / 274877906944"
    and "double_round (1506454195073277279 / 2251799813685248) = 5884586699504989 / 8796093022208"
proof -
  show "double_round 2 = 2"
    unfolding double_round_def
    by (subst binary_round_eval [where e = "1"])
      (simp_all add: powr_neg_numeral round_half_even_def Let_def)
  show "double_round (12583372 / 4194457) = 6755399977907073 / 2251799813685248"
    unfolding double_round_def
    by (subst binary_round_eval [where e = "1"])
      (simp_all add: powr_neg_numeral round_half_even_def Let_def)
  show "double_round (13814792954819964285 / 1125899906842624) = 3372752186235343 / 274877906944"
    unfolding double_round_def
    by (subst binary_round_eval [where e = "13"])
      (simp_all add: powr_neg_numeral round_half_even_def Let_def)
  show "double_round (1506454195073277279 / 2251799813685248) = 5884586699504989 / 8796093022208"
    unfolding double_round_def
    by (subst binary_round_eval [where e = "9"])
      (simp_all add: powr_neg_numeral round_half_even_def Let_def)
qed

section \<open>Properties of the operations in binary floating point\<close>

lemma vectorMagnitude_fp_nonneg: "0 \<le> vectorMagnitude_fp v"
  by (simp add: vectorMagnitude_fp_def float_round_nonneg)

lemma vectorMagnitude_fp_zero_vector: "vectorMagnitude_fp \<lparr>X = 0, Y = 0, Z = 0\<rparr> = 0"
  by (simp add: vectorMagnitude_fp_def)

lemma crossProduct_fp_zero_vector: "crossProduct_fp v \<lparr>X = 0, Y = 0, Z = 0\<rparr> = \<lparr>X = 0, Y = 0, Z = 0\<rparr>"
  by (simp add: crossProduct_fp_def)

text \<open>
  \<open>unitVector\<close> divides by zero exactly when the computed magnitude is below 1. That is
  the case of every vector whose Euclidean magnitude is at most 0.25.
\<close>

lemma unitVector_fp_divides_by_zero_iff:
  "unitVector_fp v = Inl DivisionByZero \<longleftrightarrow> vectorMagnitude_fp v < 1"
proof -
  have "\<lfloor>vectorMagnitude_fp v\<rfloor> = 0 \<longleftrightarrow> vectorMagnitude_fp v < 1"
    using vectorMagnitude_fp_nonneg [of v] by (simp add: floor_eq_iff)
  then show ?thesis
    by (auto simp add: unitVector_fp_def Let_def)
qed

lemma vectorMagnitude_fp_small:
  assumes "vectorMagnitude v \<le> 1 / 4"
  shows "vectorMagnitude_fp v \<le> 1 / 2"
proof -
  define a where "a = float_round (X v * X v)"
  define b where "b = float_round (Y v * Y v)"
  define c where "c = float_round (Z v * Z v)"
  have "(vectorMagnitude v)\<^sup>2 \<le> (1 / 4)\<^sup>2"
    using assms vectorMagnitude_nonneg [of v] by (intro power_mono) simp_all
  then have s: "X v * X v + Y v * Y v + Z v * Z v \<le> 1 / 16"
    by (simp add: vectorMagnitude_def power2_eq_square)
  have sq: "0 \<le> X v * X v" "0 \<le> Y v * Y v" "0 \<le> Z v * Z v"
    by simp_all
  have le: "X v * X v \<le> 1 / 16" "Y v * Y v \<le> 1 / 16" "Z v * Z v \<le> 1 / 16"
    using sq s by linarith+
  have a: "0 \<le> a" "a \<le> 1 / 16"
    unfolding a_def by (rule float_round_nonneg [OF sq(1)], rule float_round_le_values(1) [OF sq(1) le(1)])
  have b: "0 \<le> b" "b \<le> 1 / 16"
    unfolding b_def by (rule float_round_nonneg [OF sq(2)], rule float_round_le_values(1) [OF sq(2) le(2)])
  have c: "0 \<le> c" "c \<le> 1 / 16"
    unfolding c_def by (rule float_round_nonneg [OF sq(3)], rule float_round_le_values(1) [OF sq(3) le(3)])
  have ab0: "0 \<le> a + b" and ab1: "a + b \<le> 1 / 8"
    using a b by linarith+
  have ab: "0 \<le> float_round (a + b)" "float_round (a + b) \<le> 1 / 8"
    by (rule float_round_nonneg [OF ab0], rule float_round_le_values(2) [OF ab0 ab1])
  have abc0: "0 \<le> float_round (a + b) + c" and abc1: "float_round (a + b) + c \<le> 1 / 4"
    using ab c by linarith+
  have abc: "0 \<le> float_round (float_round (a + b) + c)" "float_round (float_round (a + b) + c) \<le> 1 / 4"
    by (rule float_round_nonneg [OF abc0], rule float_round_le_values(3) [OF abc0 abc1])
  have "sqrt (float_round (float_round (a + b) + c)) \<le> sqrt (1 / 4)"
    using abc(2) by (simp only: real_sqrt_le_iff)
  then have "sqrt (float_round (float_round (a + b) + c)) \<le> 1 / 2"
    by (simp only: sqrt_one_quarter)
  then have "float_round (sqrt (float_round (float_round (a + b) + c))) \<le> 1 / 2"
    using abc(1) by (intro float_round_le_values(4)) simp_all
  then show ?thesis
    by (simp only: vectorMagnitude_fp_def a_def b_def c_def)
qed

lemma unitVector_fp_divides_by_zero_small:
  assumes "vectorMagnitude v \<le> 1 / 4"
  shows "unitVector_fp v = Inl DivisionByZero"
  using vectorMagnitude_fp_small [OF assms] by (simp add: unitVector_fp_divides_by_zero_iff)

lemma vectorMagnitude_fp_half: "vectorMagnitude_fp \<lparr>X = 1 / 2, Y = 0, Z = 0\<rparr> = 1 / 2"
  by (simp add: vectorMagnitude_fp_def float_round_values sqrt_one_quarter)

lemma vectorMagnitude_fp_edge:
  "vectorMagnitude_fp \<lparr>X = 16777215 / 16777216, Y = 5 / 16384, Z = 0\<rparr> = 1"
  by (simp add: vectorMagnitude_fp_def float_round_values)

text \<open>
  At \<open>(1.5, 0, 0)\<close> no operation rounds, and the result is the one of exact arithmetic.
\<close>

lemma unitVector_fp_three_halves:
  "unitVector_fp \<lparr>X = 3 / 2, Y = 0, Z = 0\<rparr> = Inr \<lparr>X = 3 / 2, Y = 0, Z = 0\<rparr>"
proof -
  have m: "vectorMagnitude_fp \<lparr>X = 3 / 2, Y = 0, Z = 0\<rparr> = 3 / 2"
    by (simp add: vectorMagnitude_fp_def float_round_values sqrt_nine_quarters)
  show ?thesis
    by (simp add: unitVector_fp_def Let_def m floor_three_halves float_round_values)
qed

lemma vectorComponentParallel_fp_example:
  "vectorComponentParallelToAnotherVector_fp \<lparr>X = 2, Y = 0, Z = 0\<rparr> \<lparr>X = 1, Y = 0, Z = 0\<rparr>
     = Inr \<lparr>X = 2, Y = 0, Z = 0\<rparr>"
  by (simp add: vectorComponentParallelToAnotherVector_fp_def dotProduct_fp_def Let_def
      float_round_values double_round_values)

text \<open>
  At \<open>v1 = (12270, 669, 0) = 3 * v2\<close> and \<open>v2 = (4090, 223, 0)\<close> the two dot products are
  rounded, to 50333488 and 16777828, and their quotient is not 3: the computed projection
  is \<open>(12270 + 1 / 1024, 669 + 1 / 16384, 0)\<close>, the computed perpendicular part is not the
  zero vector, \<open>|w| = 261 / 8192\<close>, and the rotation returns a vector.
\<close>

lemma vectorComponentParallel_fp_collinear:
  "vectorComponentParallelToAnotherVector_fp \<lparr>X = 12270, Y = 669, Z = 0\<rparr> \<lparr>X = 4090, Y = 223, Z = 0\<rparr>
     = Inr \<lparr>X = 12564481 / 1024, Y = 10960897 / 16384, Z = 0\<rparr>"
  by (simp add: vectorComponentParallelToAnotherVector_fp_def dotProduct_fp_def Let_def
      float_round_values double_round_values)

lemma rotateAround_fp_collinear_returns:
  "subtractVectors_fp \<lparr>X = 12270, Y = 669, Z = 0\<rparr> \<lparr>X = 12564481 / 1024, Y = 10960897 / 16384, Z = 0\<rparr>
     = \<lparr>X = - (1 / 1024), Y = - (1 / 16384), Z = 0\<rparr>"
  "\<exists>r. rotateVectorAroundAnotherVector_fp libm_cos libm_sin
         \<lparr>X = 12270, Y = 669, Z = 0\<rparr> \<lparr>X = 4090, Y = 223, Z = 0\<rparr> angle = Inr r"
proof -
  show perp: "subtractVectors_fp \<lparr>X = 12270, Y = 669, Z = 0\<rparr> \<lparr>X = 12564481 / 1024, Y = 10960897 / 16384, Z = 0\<rparr>
     = \<lparr>X = - (1 / 1024), Y = - (1 / 16384), Z = 0\<rparr>"
    by (simp add: subtractVectors_fp_def float_round_values)
  have w: "crossProduct_fp \<lparr>X = 4090, Y = 223, Z = 0\<rparr> \<lparr>X = - (1 / 1024), Y = - (1 / 16384), Z = 0\<rparr>
      = \<lparr>X = 0, Y = 0, Z = - (261 / 8192)\<rparr>"
    by (simp add: crossProduct_fp_def float_round_values)
  have s: "sqrt (68121 / 67108864) = 261 / 8192"
    by (rule real_sqrt_unique) (simp_all add: power2_eq_square)
  have "vectorMagnitude_fp \<lparr>X = 0, Y = 0, Z = - (261 / 8192)\<rparr> = 261 / 8192"
    by (simp add: vectorMagnitude_fp_def float_round_values s)
  then show "\<exists>r. rotateVectorAroundAnotherVector_fp libm_cos libm_sin
         \<lparr>X = 12270, Y = 669, Z = 0\<rparr> \<lparr>X = 4090, Y = 223, Z = 0\<rparr> angle = Inr r"
    by (simp add: rotateVectorAroundAnotherVector_fp_def Let_def vectorComponentParallel_fp_collinear
        perp w)
qed

section \<open>The out-parameter of findOrientation\<close>

text \<open>
  \<open>findOrientation\<close> is \<open>findOrientation_written\<close> read where the two derived fields are
  defined. At \<open>vUp = (0, 0, 0.5)\<close> and \<open>vUpFront = (1, 0, 0)\<close> they are not: the first unit
  vector is divided by the integer 0.
\<close>

lemma findOrientation_eq_written:
  "findOrientation up upFront =
     (case written_vFront (findOrientation_written up upFront) of
        Inl e \<Rightarrow> Inl e
      | Inr front \<Rightarrow>
          (case written_vRight (findOrientation_written up upFront) of
             Inl e \<Rightarrow> Inl e
           | Inr right \<Rightarrow>
               Inr \<lparr>vUp = written_vUp (findOrientation_written up upFront),
                      vFront = front, vRight = right\<rparr>))"
  by (simp add: findOrientation_def findOrientation_written_def Let_def split: sum.splits)

lemma findOrientation_written_example:
  "findOrientation_written \<lparr>X = 0, Y = 0, Z = 1 / 2\<rparr> \<lparr>X = 1, Y = 0, Z = 0\<rparr>
     = \<lparr>written_vUp = \<lparr>X = 0, Y = 0, Z = 1 / 2\<rparr>,
        written_vFront = Inl DivisionByZero, written_vRight = Inl DivisionByZero\<rparr>"
proof -
  have m: "vectorMagnitude \<lparr>X = 0, Y = 0, Z = 1 / 2\<rparr> = 1 / 2"
    by (simp add: vectorMagnitude_def sqrt_one_quarter)
  have u: "unitVector \<lparr>X = 0, Y = 0, Z = 1 / 2\<rparr> = Inl DivisionByZero"
    by (simp add: unitVector_def Let_def m)
  show ?thesis
    by (simp add: findOrientation_written_def rotateVectorThroughAnotherVector_def Let_def u)
qed

section \<open>Claims\<close>

text \<open>
  C1. At the vector \<open>(1.5, 0, 0)\<close>, whose magnitude 1.5 is not zero, the integer divisor is 1:
  \<open>unitVector\<close> returns the input unchanged, a vector of magnitude 1.5 and not 1.
\<close>

theorem unitVector_three_halves_not_unit:
  "unitVector \<lparr>X = 3 / 2, Y = 0, Z = 0\<rparr> = Inr \<lparr>X = 3 / 2, Y = 0, Z = 0\<rparr> \<and>
   vectorMagnitude \<lparr>X = 3 / 2, Y = 0, Z = 0\<rparr> = 3 / 2"
proof -
  have m: "vectorMagnitude \<lparr>X = 3 / 2, Y = 0, Z = 0\<rparr> = 3 / 2"
    by (simp add: vectorMagnitude_def sqrt_nine_quarters)
  have fl: "\<lfloor>3 / 2 :: real\<rfloor> = 1"
    by (simp add: floor_eq_iff)
  show ?thesis
    by (simp add: unitVector_def Let_def m fl)
qed

text \<open>
  C2. At \<open>vUp = (0, 0, 1)\<close> and \<open>vUpFront = (1.5, 0, 0)\<close>, two non-zero vectors that are not
  collinear, \<open>findOrientation\<close> returns an orientation whose \<open>vFront\<close> is
  \<open>(1.5 * sin r, 0, cos r)\<close> with \<open>r = 6283 / 4000\<close>: the second unit vector was divided by
  the integer 1 and kept its length 1.5. The magnitude of \<open>vFront\<close> is above 1.4, and that
  of the input \<open>vUp\<close> is 1.
\<close>

theorem findOrientation_vFront_magnitude_differs:
  "\<exists>right.
     findOrientation \<lparr>X = 0, Y = 0, Z = 1\<rparr> \<lparr>X = 3 / 2, Y = 0, Z = 0\<rparr>
       = Inr \<lparr>vUp = \<lparr>X = 0, Y = 0, Z = 1\<rparr>,
              vFront = \<lparr>X = sin (6283 / 4000) * (3 / 2), Y = 0, Z = cos (6283 / 4000)\<rparr>,
              vRight = right\<rparr> \<and>
     vectorMagnitude \<lparr>X = 0, Y = 0, Z = 1\<rparr> = 1 \<and>
     7 / 5 < vectorMagnitude \<lparr>X = sin (6283 / 4000) * (3 / 2), Y = 0, Z = cos (6283 / 4000)\<rparr>"
proof -
  have "vectorMagnitude \<lparr>X = 0, Y = 0, Z = 1\<rparr> = 1"
    by (simp add: vectorMagnitude_def)
  with findOrientation_example vFront_example_magnitude show ?thesis
    by blast
qed

text \<open>
  C3, as the code has it. For a non-zero vector whose computed magnitude, the value that
  \<open>vectorMagnitude\<close> returns in binary floating point, is strictly below 1, the magnitude
  stored in the \<^verbatim>\<open>int\<close> local is 0, and \<open>unitVector\<close> divides by it: the division is not
  guarded.
\<close>

theorem unitVector_fp_small_divides_by_zero:
  assumes "v \<noteq> \<lparr>X = 0, Y = 0, Z = 0\<rparr>" and "vectorMagnitude_fp v < 1"
  shows "\<lfloor>vectorMagnitude_fp v\<rfloor> = 0 \<and> unitVector_fp v = Inl DivisionByZero"
proof -
  have fl: "\<lfloor>vectorMagnitude_fp v\<rfloor> = 0"
    using assms(2) vectorMagnitude_fp_nonneg [of v] by (simp add: floor_eq_iff)
  have "\<not> 2147483648 \<le> vectorMagnitude_fp v"
    using assms(2) by simp
  then have "unitVector_fp v = Inl DivisionByZero"
    using fl by (simp add: unitVector_fp_def Let_def)
  with fl show ?thesis
    by simp
qed

theorem unitVector_fp_small_divides_by_zero_witness:
  "\<lparr>X = 1 / 2, Y = 0, Z = 0\<rparr> \<noteq> \<lparr>X = 0, Y = 0, Z = 0\<rparr> \<and>
   vectorMagnitude_fp \<lparr>X = 1 / 2, Y = 0, Z = 0\<rparr> < 1 \<and>
   \<lfloor>vectorMagnitude_fp \<lparr>X = 1 / 2, Y = 0, Z = 0\<rparr>\<rfloor> = 0 \<and>
   unitVector_fp \<lparr>X = 1 / 2, Y = 0, Z = 0\<rparr> = Inl DivisionByZero"
proof -
  have h1: "\<lparr>X = 1 / 2, Y = 0, Z = 0\<rparr> \<noteq> \<lparr>X = 0 :: real, Y = 0 :: real, Z = 0 :: real\<rparr>"
    by simp
  have h2: "vectorMagnitude_fp \<lparr>X = 1 / 2, Y = 0, Z = 0\<rparr> < 1"
    by (simp add: vectorMagnitude_fp_half)
  from unitVector_fp_small_divides_by_zero [OF h1 h2] h1 h2 show ?thesis
    by blast
qed

text \<open>
  C3, as stated, fails. The vector \<open>(16777215 / 16777216, 5 / 16384, 0)\<close>, of two binary32
  numbers (\<^verbatim>\<open>0x1.fffffep-1\<close> and \<^verbatim>\<open>0x1.4p-12\<close>), is not zero and its Euclidean magnitude is
  below 1, but the sum of the rounded squares, \<open>268435449 / 268435456\<close>, rounds to 1: the
  computed magnitude is 1, the \<^verbatim>\<open>int\<close> local is 1, and \<open>unitVector\<close> returns its argument
  without dividing by zero.
\<close>

theorem unitVector_fp_below_one_not_divided_by_zero:
  "vectorMagnitude \<lparr>X = 16777215 / 16777216, Y = 5 / 16384, Z = 0\<rparr> \<noteq> 0 \<and>
   vectorMagnitude \<lparr>X = 16777215 / 16777216, Y = 5 / 16384, Z = 0\<rparr> < 1 \<and>
   \<lfloor>vectorMagnitude_fp \<lparr>X = 16777215 / 16777216, Y = 5 / 16384, Z = 0\<rparr>\<rfloor> = 1 \<and>
   unitVector_fp \<lparr>X = 16777215 / 16777216, Y = 5 / 16384, Z = 0\<rparr>
     = Inr \<lparr>X = 16777215 / 16777216, Y = 5 / 16384, Z = 0\<rparr>"
proof -
  let ?v = "\<lparr>X = 16777215 / 16777216, Y = 5 / 16384, Z = 0 :: real\<rparr>"
  have "vectorMagnitude ?v \<noteq> 0"
    by (simp add: vectorMagnitude_zero_iff)
  moreover have "vectorMagnitude ?v < 1"
    by (simp add: vectorMagnitude_def)
  moreover have "\<lfloor>vectorMagnitude_fp ?v\<rfloor> = 1"
    by (simp add: vectorMagnitude_fp_edge)
  moreover have "unitVector_fp ?v = Inr ?v"
    by (simp add: unitVector_fp_def Let_def vectorMagnitude_fp_edge float_round_values)
  ultimately show ?thesis
    by blast
qed

text \<open>
  C4. At \<open>v1 = (1.5, 0, 0)\<close>, \<open>v2 = (0, 1, 0)\<close> and angle 0, the integer divisor of \<open>unitVector\<close>
  is 1, so \<open>e1 = v1\<close> and the result is \<open>|v1| * e1 = (2.25, 0, 0)\<close>, not \<open>v1\<close>.
\<close>

theorem rotateThrough_angle_0_not_identity:
  "rotateVectorThroughAnotherVector \<lparr>X = 3 / 2, Y = 0, Z = 0\<rparr> \<lparr>X = 0, Y = 1, Z = 0\<rparr> 0
     = Inr \<lparr>X = 9 / 4, Y = 0, Z = 0\<rparr>"
proof -
  have m1: "vectorMagnitude \<lparr>X = 3 / 2, Y = 0, Z = 0\<rparr> = 3 / 2"
    by (simp add: vectorMagnitude_def sqrt_nine_quarters)
  have fl: "\<lfloor>3 / 2 :: real\<rfloor> = 1"
    by (simp add: floor_eq_iff)
  have e1: "unitVector \<lparr>X = 3 / 2, Y = 0, Z = 0\<rparr> = Inr \<lparr>X = 3 / 2, Y = 0, Z = 0\<rparr>"
    by (simp add: unitVector_def Let_def m1 fl)
  have e2: "unitVector \<lparr>X = 0, Y = 1, Z = 0\<rparr> = Inr \<lparr>X = 0, Y = 1, Z = 0\<rparr>"
    by (simp add: unitVector_def Let_def vectorMagnitude_def)
  show ?thesis
    by (simp add: rotateVectorThroughAnotherVector_def Let_def e1 e2 dotProduct_def m1)
qed

text \<open>
  C5, as the code has it. When the perpendicular component that the function computes,
  \<open>v1\<close> minus the computed projection of \<open>v1\<close> onto the non-zero axis \<open>v2\<close>, is the zero
  vector, so is \<open>w\<close>: no case is set apart, and the formula divides by \<open>|w| = 0\<close>, whatever
  the angle and whatever \<^verbatim>\<open>cos\<close> and \<^verbatim>\<open>sin\<close> return.
\<close>

theorem rotateAround_fp_zero_perpendicular_divides_by_zero:
  assumes "vectorComponentParallelToAnotherVector_fp v1 v2 = Inr paralelToV2"
    and "subtractVectors_fp v1 paralelToV2 = \<lparr>X = 0, Y = 0, Z = 0\<rparr>"
  shows "vectorMagnitude_fp (crossProduct_fp v2 (subtractVectors_fp v1 paralelToV2)) = 0 \<and>
         rotateVectorAroundAnotherVector_fp libm_cos libm_sin v1 v2 angle = Inl DivisionByZero"
proof -
  have w: "vectorMagnitude_fp (crossProduct_fp v2 (subtractVectors_fp v1 paralelToV2)) = 0"
    by (simp only: assms(2) crossProduct_fp_zero_vector vectorMagnitude_fp_zero_vector)
  then have "rotateVectorAroundAnotherVector_fp libm_cos libm_sin v1 v2 angle = Inl DivisionByZero"
    by (simp add: rotateVectorAroundAnotherVector_fp_def Let_def assms(1))
  with w show ?thesis
    by simp
qed

theorem rotateAround_fp_zero_perpendicular_divides_by_zero_witness:
  "vectorComponentParallelToAnotherVector_fp \<lparr>X = 2, Y = 0, Z = 0\<rparr> \<lparr>X = 1, Y = 0, Z = 0\<rparr>
     = Inr \<lparr>X = 2, Y = 0, Z = 0\<rparr> \<and>
   subtractVectors_fp \<lparr>X = 2, Y = 0, Z = 0\<rparr> \<lparr>X = 2, Y = 0, Z = 0\<rparr> = \<lparr>X = 0, Y = 0, Z = 0\<rparr> \<and>
   rotateVectorAroundAnotherVector_fp cos sin \<lparr>X = 2, Y = 0, Z = 0\<rparr> \<lparr>X = 1, Y = 0, Z = 0\<rparr> 45
     = Inl DivisionByZero"
proof -
  have h2: "subtractVectors_fp \<lparr>X = 2, Y = 0, Z = 0\<rparr> \<lparr>X = 2, Y = 0, Z = 0\<rparr> = \<lparr>X = 0, Y = 0, Z = 0\<rparr>"
    by (simp add: subtractVectors_fp_def)
  from rotateAround_fp_zero_perpendicular_divides_by_zero
    [OF vectorComponentParallel_fp_example h2, of cos sin 45]
  have "rotateVectorAroundAnotherVector_fp cos sin \<lparr>X = 2, Y = 0, Z = 0\<rparr> \<lparr>X = 1, Y = 0, Z = 0\<rparr> 45
      = Inl DivisionByZero"
    by (rule conjunct2)
  with vectorComponentParallel_fp_example h2 show ?thesis
    by blast
qed

text \<open>
  C5, as stated, fails: for \<open>v1 = (2, 0, 0)\<close> parallel to the axis \<open>v2 = (1, 0, 0)\<close> the
  function does not return \<open>v1\<close>; it divides by zero.
\<close>

theorem rotateAround_parallel_not_returned:
  "rotateVectorAroundAnotherVector \<lparr>X = 2, Y = 0, Z = 0\<rparr> \<lparr>X = 1, Y = 0, Z = 0\<rparr> 90 = Inl DivisionByZero \<and>
   rotateVectorAroundAnotherVector \<lparr>X = 2, Y = 0, Z = 0\<rparr> \<lparr>X = 1, Y = 0, Z = 0\<rparr> 90 \<noteq> Inr \<lparr>X = 2, Y = 0, Z = 0\<rparr>"
  by (simp add: rotateVectorAroundAnotherVector_def Let_def
      vectorComponentParallelToAnotherVector_def dotProduct_def subtractVectors_def
      crossProduct_def vectorMagnitude_def)

text \<open>
  C6. At \<open>vUp = (0, 0, 1.5)\<close> and \<open>vUpFront = (0.9375, 0, -1)\<close>, non-zero and not collinear,
  \<open>findOrientation\<close> returns an orientation, and the decomposition of \<open>v = vUp\<close> in it is
  defined. Its \<open>UP\<close> is the magnitude 1.5 of \<open>vUp\<close>, but its \<open>FRONT\<close> is above 0.5: the
  first unit vector was divided by the integer 1, so \<open>vFront\<close> is not orthogonal to \<open>vUp\<close>.
\<close>

theorem decomposition_of_vUp_front_not_zero:
  "\<exists>orientation g.
     findOrientation \<lparr>X = 0, Y = 0, Z = 3 / 2\<rparr> \<lparr>X = 15 / 16, Y = 0, Z = - 1\<rparr> = Inr orientation \<and>
     findVectorsMagnitudeInTheOrientation \<lparr>X = 0, Y = 0, Z = 3 / 2\<rparr> orientation = Inr g \<and>
     vectorMagnitude \<lparr>X = 0, Y = 0, Z = 3 / 2\<rparr> = 3 / 2 \<and>
     UP g = 3 / 2 \<and> 1 / 2 < FRONT g"
proof -
  define c where "c = cos (6283 / 4000 :: real)"
  define s where "s = sin (6283 / 4000 :: real)"
  let ?up = "\<lparr>X = 0, Y = 0, Z = 3 / 2 :: real\<rparr>"
  define front where "front = \<lparr>X = 45 / 32 * s, Y = 0, Z = 9 / 4 * c + 15 / 8 * s\<rparr>"
  have c0: "0 < c" and c1: "c < 1 / 10000"
    using cos_90_pos cos_90_small by (simp_all add: c_def)
  have s0: "99 / 100 < s" and s1: "s \<le> 1"
    using sin_90_bounds by (simp_all add: s_def)
  have rt: "rotateVectorThroughAnotherVector ?up \<lparr>X = 15 / 16, Y = 0, Z = - 1\<rparr> 90 = Inr front"
    by (simp only: rotateThrough_example_2 front_def c_def s_def)
  have front_nz: "front \<noteq> \<lparr>X = 0, Y = 0, Z = 0\<rparr>"
    using s0 by (simp add: front_def)
  have "crossProduct front ?up \<noteq> \<lparr>X = 0, Y = 0, Z = 0\<rparr>"
    using s0 by (simp add: front_def crossProduct_def)
  with front_nz obtain right where
    ra: "rotateVectorAroundAnotherVector ?up front 90 = Inr right"
    using rotateAround_defined by blast
  define orientation where "orientation = \<lparr>vUp = ?up, vFront = front, vRight = right\<rparr>"
  have fo: "findOrientation ?up \<lparr>X = 15 / 16, Y = 0, Z = - 1\<rparr> = Inr orientation"
    by (simp add: findOrientation_def rt ra orientation_def)
  have "dotProduct right right = dotProduct ?up ?up"
    by (rule rotateAround_preserves_dotProduct [OF ra])
  then have "dotProduct right right \<noteq> 0"
    by (simp add: dotProduct_def)
  then have right_nz: "right \<noteq> \<lparr>X = 0, Y = 0, Z = 0\<rparr>"
    by (simp add: dotProduct_self_zero_iff)
  have "vUp orientation \<noteq> \<lparr>X = 0, Y = 0, Z = 0\<rparr>"
    by (simp add: orientation_def)
  moreover have "vFront orientation \<noteq> \<lparr>X = 0, Y = 0, Z = 0\<rparr>"
    using front_nz by (simp add: orientation_def)
  moreover have "vRight orientation \<noteq> \<lparr>X = 0, Y = 0, Z = 0\<rparr>"
    using right_nz by (simp add: orientation_def)
  ultimately obtain g where g: "findVectorsMagnitudeInTheOrientation ?up orientation = Inr g"
    using findVectorsMagnitude_defined by blast
  note proj = findVectorsMagnitude_scalar_projection [OF g]
  have up: "UP g = 3 / 2"
    by (simp add: proj(1) orientation_def dotProduct_def vectorMagnitude_def sqrt_nine_quarters)
  have z_lo: "0 \<le> 9 / 4 * c + 15 / 8 * s" and z_hi: "9 / 4 * c + 15 / 8 * s \<le> 2"
    using c0 c1 s0 s1 by simp_all
  have "(9 / 4 * c + 15 / 8 * s) * (9 / 4 * c + 15 / 8 * s) \<le> 2 * 2"
    using z_lo z_hi by (intro mult_mono) simp_all
  moreover have "(45 / 32 * s) * (45 / 32 * s) \<le> (3 / 2) * (3 / 2)"
    using s0 s1 by (intro mult_mono) simp_all
  ultimately have "dotProduct front front \<le> 3\<^sup>2"
    by (simp add: front_def dotProduct_def power2_eq_square)
  then have mag_hi: "vectorMagnitude front \<le> 3"
    unfolding vectorMagnitude_dotProduct by (intro real_le_lsqrt) simp_all
  have mag_pos: "0 < vectorMagnitude front"
    using front_nz vectorMagnitude_nonneg [of front] by (simp add: vectorMagnitude_zero_iff less_le)
  have dot_lo: "5 / 2 < dotProduct ?up front"
    using c0 s0 by (simp add: front_def dotProduct_def)
  have "vectorMagnitude front < 2 * dotProduct ?up front"
    using mag_hi dot_lo by linarith
  then have "1 / 2 < dotProduct ?up front / vectorMagnitude front"
    using mag_pos by (simp add: pos_less_divide_eq)
  then have "1 / 2 < FRONT g"
    by (simp add: proj(2) orientation_def)
  moreover have "vectorMagnitude ?up = 3 / 2"
    by (simp add: vectorMagnitude_def sqrt_nine_quarters)
  ultimately show ?thesis
    using fo g up by blast
qed

text \<open>
  C7. At \<open>v1 = (10000, 0, 0)\<close>, the axis \<open>v2 = (0, 0, 1)\<close> and the angle 360, the radians are
  \<open>6283 / 1000\<close>, short of a full turn, and the result is
  \<open>(10000 * cos (6283 / 1000), 10000 * sin (6283 / 1000), 0)\<close>. Its second component is
  below \<open>-1\<close>, where that of \<open>v1\<close> is 0.
\<close>

theorem rotateAround_360_not_identity:
  "rotateVectorAroundAnotherVector \<lparr>X = 10000, Y = 0, Z = 0\<rparr> \<lparr>X = 0, Y = 0, Z = 1\<rparr> 360
     = Inr \<lparr>X = 10000 * cos (6283 / 1000), Y = 10000 * sin (6283 / 1000), Z = 0\<rparr> \<and>
   10000 * sin (6283 / 1000 :: real) < - 1"
proof -
  have "10000 * sin (6283 / 1000 :: real) < - 1"
    using sin_360_negative by linarith
  with rotateAround_360_example show ?thesis
    by blast
qed

text \<open>
  C8. When the three projections of \<open>v\<close> are computed, an axis whose projection is the zero
  vector gets the magnitude 0, and the test \<open>isVectorsInOppositeDirection\<close> is false for it,
  so that the value is not negated: the test is true exactly when the dot product is
  strictly negative.
\<close>

theorem zero_projection_magnitude_not_negated:
  assumes "findVectorComponentsInTheOrientation v orientation = Inr vComponents"
  shows "\<exists>g. findVectorsMagnitudeInTheOrientation v orientation = Inr g \<and>
           (vUp vComponents = \<lparr>X = 0, Y = 0, Z = 0\<rparr> \<longrightarrow>
              UP g = 0 \<and> \<not> isVectorsInOppositeDirection (vUp orientation) (vUp vComponents)) \<and>
           (vFront vComponents = \<lparr>X = 0, Y = 0, Z = 0\<rparr> \<longrightarrow>
              FRONT g = 0 \<and> \<not> isVectorsInOppositeDirection (vFront orientation) (vFront vComponents)) \<and>
           (vRight vComponents = \<lparr>X = 0, Y = 0, Z = 0\<rparr> \<longrightarrow>
              RIGHT g = 0 \<and> \<not> isVectorsInOppositeDirection (vRight orientation) (vRight vComponents)) \<and>
           (isVectorsInOppositeDirection a b \<longleftrightarrow> \<not> 0 \<le> dotProduct a b)"
  using assms
  by (simp add: findVectorsMagnitudeInTheOrientation_def Let_def vectorMagnitude_zero_vector
      not_opposite_zero_vector)
    (auto simp add: isVectorsInOppositeDirection_def)

theorem zero_projection_magnitude_not_negated_witness:
  "findVectorComponentsInTheOrientation \<lparr>X = 0, Y = 0, Z = 2\<rparr>
     \<lparr>vUp = \<lparr>X = 0, Y = 0, Z = 1\<rparr>, vFront = \<lparr>X = 1, Y = 0, Z = 0\<rparr>, vRight = \<lparr>X = 0, Y = 1, Z = 0\<rparr>\<rparr>
     = Inr \<lparr>vUp = \<lparr>X = 0, Y = 0, Z = 2\<rparr>, vFront = \<lparr>X = 0, Y = 0, Z = 0\<rparr>, vRight = \<lparr>X = 0, Y = 0, Z = 0\<rparr>\<rparr> \<and>
   findVectorsMagnitudeInTheOrientation \<lparr>X = 0, Y = 0, Z = 2\<rparr>
     \<lparr>vUp = \<lparr>X = 0, Y = 0, Z = 1\<rparr>, vFront = \<lparr>X = 1, Y = 0, Z = 0\<rparr>, vRight = \<lparr>X = 0, Y = 1, Z = 0\<rparr>\<rparr>
     = Inr \<lparr>UP = 2, FRONT = 0, RIGHT = 0\<rparr> \<and>
   findVectorComponentsInTheOrientation \<lparr>X = 2, Y = 0, Z = 0\<rparr>
     \<lparr>vUp = \<lparr>X = 0, Y = 0, Z = 1\<rparr>, vFront = \<lparr>X = 1, Y = 0, Z = 0\<rparr>, vRight = \<lparr>X = 0, Y = 1, Z = 0\<rparr>\<rparr>
     = Inr \<lparr>vUp = \<lparr>X = 0, Y = 0, Z = 0\<rparr>, vFront = \<lparr>X = 2, Y = 0, Z = 0\<rparr>, vRight = \<lparr>X = 0, Y = 0, Z = 0\<rparr>\<rparr> \<and>
   findVectorsMagnitudeInTheOrientation \<lparr>X = 2, Y = 0, Z = 0\<rparr>
     \<lparr>vUp = \<lparr>X = 0, Y = 0, Z = 1\<rparr>, vFront = \<lparr>X = 1, Y = 0, Z = 0\<rparr>, vRight = \<lparr>X = 0, Y = 1, Z = 0\<rparr>\<rparr>
     = Inr \<lparr>UP = 0, FRONT = 2, RIGHT = 0\<rparr>"
proof -
  let ?O = "\<lparr>vUp = \<lparr>X = 0, Y = 0, Z = 1\<rparr>, vFront = \<lparr>X = 1, Y = 0, Z = 0\<rparr>, vRight = \<lparr>X = 0, Y = 1, Z = 0\<rparr>\<rparr>"
  have c1: "findVectorComponentsInTheOrientation \<lparr>X = 0, Y = 0, Z = 2\<rparr> ?O
      = Inr \<lparr>vUp = \<lparr>X = 0, Y = 0, Z = 2\<rparr>, vFront = \<lparr>X = 0, Y = 0, Z = 0\<rparr>, vRight = \<lparr>X = 0, Y = 0, Z = 0\<rparr>\<rparr>"
    by (simp add: findVectorComponentsInTheOrientation_def
        vectorComponentParallelToAnotherVector_def dotProduct_def)
  have c2: "findVectorComponentsInTheOrientation \<lparr>X = 2, Y = 0, Z = 0\<rparr> ?O
      = Inr \<lparr>vUp = \<lparr>X = 0, Y = 0, Z = 0\<rparr>, vFront = \<lparr>X = 2, Y = 0, Z = 0\<rparr>, vRight = \<lparr>X = 0, Y = 0, Z = 0\<rparr>\<rparr>"
    by (simp add: findVectorComponentsInTheOrientation_def
        vectorComponentParallelToAnotherVector_def dotProduct_def)
  from zero_projection_magnitude_not_negated [OF c1]
  obtain g1 where g1: "findVectorsMagnitudeInTheOrientation \<lparr>X = 0, Y = 0, Z = 2\<rparr> ?O = Inr g1"
    and z1: "FRONT g1 = 0" "RIGHT g1 = 0"
    by auto
  from zero_projection_magnitude_not_negated [OF c2]
  obtain g2 where g2: "findVectorsMagnitudeInTheOrientation \<lparr>X = 2, Y = 0, Z = 0\<rparr> ?O = Inr g2"
    and z2: "UP g2 = 0" "RIGHT g2 = 0"
    by auto
  have "findVectorsMagnitudeInTheOrientation \<lparr>X = 0, Y = 0, Z = 2\<rparr> ?O
      = Inr \<lparr>UP = 2, FRONT = 0, RIGHT = 0\<rparr>"
    by (simp add: findVectorsMagnitudeInTheOrientation_def c1 Let_def vectorMagnitude_def
        isVectorsInOppositeDirection_def dotProduct_def)
  moreover have "findVectorsMagnitudeInTheOrientation \<lparr>X = 2, Y = 0, Z = 0\<rparr> ?O
      = Inr \<lparr>UP = 0, FRONT = 2, RIGHT = 0\<rparr>"
    by (simp add: findVectorsMagnitudeInTheOrientation_def c2 Let_def vectorMagnitude_def
        isVectorsInOppositeDirection_def dotProduct_def)
  ultimately show ?thesis
    using c1 c2 g1 g2 z1 z2 by simp
qed

text \<open>
  C9. For every pair of inputs, the field \<open>vUp\<close> that the call of \<open>findOrientation\<close> leaves
  in its out-parameter is the input \<open>vUp\<close> vector itself, whether the two other fields are
  defined or not.
\<close>

theorem findOrientation_written_vUp_copied:
  "written_vUp (findOrientation_written up upFront) = up"
  by (simp add: findOrientation_written_def Let_def)

text \<open>
  C10. The cross product is anti-commutative, exactly: every component of
  \<open>crossProduct v1 v2\<close> is the negation of the same component of \<open>crossProduct v2 v1\<close>.
\<close>

theorem crossProduct_anticommutative:
  "X (crossProduct v1 v2) = - X (crossProduct v2 v1) \<and>
   Y (crossProduct v1 v2) = - Y (crossProduct v2 v1) \<and>
   Z (crossProduct v1 v2) = - Z (crossProduct v2 v1)"
  by (simp add: crossProduct_def)

end
